theory Spec2Isabelle
  imports Complex_Main "HOL-Library.Word"
begin

section \<open>The look-ahead tree search of the local planner\<close>

text \<open>
  A shallow embedding of \<^verbatim>\<open>StarPlanner::buildLookAheadTree\<close>
  (\<^verbatim>\<open>src/local_planner/src/nodes/star_planner.cpp\<close>).

  Conventions of the embedding.
  \<^item> A \<^verbatim>\<open>float\<close> is modelled by the \<^typ>\<open>real\<close> number it denotes; there is no infinity
    and no NaN. Comparisons are exact. A literal such as \<^verbatim>\<open>0.2f\<close> or \<^verbatim>\<open>FLT_MAX\<close> is the real
    number that the float denotes, not the decimal.
  \<^item> The operations of Eigen on vectors round in float arithmetic, and the tests of the search
    compare their results with thresholds. The difference of two vectors and the two norms
    are therefore parameters of the model: nothing is assumed about how they round.
  \<^item> The scalar arithmetic of the source (the product of line 44, the sum of lines 118
    and 119) only produces values that are stored; it is modelled without rounding. The
    product \<^verbatim>\<open>2.0f * max_sensor_range_\<close> of line 90 is a doubling, which does not round.
  \<^item> Node indices (\<^verbatim>\<open>int\<close> and \<^verbatim>\<open>size_t\<close> in the source) are \<^typ>\<open>nat\<close>; the one place
    where unsigned wrap-around decides the control flow, the test on
    \<^verbatim>\<open>path_node_setpoints_.size() - 2\<close>, is modelled on 64-bit words.
  \<^item> \<^verbatim>\<open>Eigen::Vector3f\<close> is a triple of reals.
  \<^item> Code that is called but is not part of the source file (the trajectory simulator, the
    cost function, the braking-distance formula, the operations of Eigen and the clock) is a
    parameter of the model, collected in the record \<open>externals\<close>.
  \<^item> A name cannot end in an underscore here, so a member \<^verbatim>\<open>tree_\<close> of the source is
    written \<open>tree_m\<close>, and likewise for the other members.
\<close>

subsection \<open>Vectors\<close>

type_synonym vec3 = "real \<times> real \<times> real"

type_synonym quaternion = "real \<times> real \<times> real \<times> real"

definition Zero3 :: vec3 where
  "Zero3 = (0, 0, 0)"

text \<open>
  The difference and the norms without rounding. The search itself uses the operations of
  the record \<open>externals\<close>; these are what the examples take for them where float arithmetic is
  exact, and what a distance is when it is not the computed one.
\<close>

fun vsub :: "vec3 \<Rightarrow> vec3 \<Rightarrow> vec3" where
  "vsub (a, b, c) (x, y, z) = (a - x, b - y, c - z)"

fun norm3 :: "vec3 \<Rightarrow> real" where
  "norm3 (x, y, z) = sqrt (x * x + y * y + z * z)"

text \<open>\<^verbatim>\<open>v.head<2>().norm()\<close>: the norm of the first two components.\<close>

fun head2_norm :: "vec3 \<Rightarrow> real" where
  "head2_norm (x, y, z) = sqrt (x * x + y * y)"

definition FLT_MAX :: real where
  "FLT_MAX = 340282346638528859811704183484516925440"

text \<open>The floats that the literals \<^verbatim>\<open>0.2f\<close>, \<^verbatim>\<open>0.05f\<close> and \<^verbatim>\<open>0.707f\<close> denote.\<close>

definition lit_0_2f :: real where
  "lit_0_2f = 13421773 / 67108864"

definition lit_0_05f :: real where
  "lit_0_05f = 13421773 / 268435456"

definition lit_0_707f :: real where
  "lit_0_707f = 2965373 / 4194304"

subsection \<open>Data\<close>

record simulation_state =
  position :: vec3
  velocity :: vec3
  acceleration :: vec3
  time :: real

text \<open>
  Modelled from the spec: the constructor \<^verbatim>\<open>simulation_state(t, p)\<close> is declared in a header
  that is not part of the source file; the spec calls its result the instantaneous state at
  the position \<open>p\<close>. Velocity and acceleration are taken to be zero.
\<close>

definition simulation_state_at :: "real \<Rightarrow> vec3 \<Rightarrow> simulation_state" where
  "simulation_state_at t p =
     \<lparr>position = p, velocity = Zero3, acceleration = Zero3, time = t\<rparr>"

text \<open>The fields of \<^verbatim>\<open>simulation_limits\<close> that the source file reads or writes.\<close>

record simulation_limits =
  max_xy_velocity_norm :: real
  max_acceleration_norm :: real
  max_jerk_norm :: real

record TreeNode =
  total_cost_m :: real
  heuristic_m :: real
  origin_m :: nat
  closed_m :: bool
  state :: simulation_state
  setpoint :: vec3

text \<open>
  Modelled from the spec: \<^verbatim>\<open>tree_node.h\<close> is not part of the source file. The spec's data
  model gives a node its parent index, state and setpoint from the constructor, and a closed
  flag that is true once the node is expanded, hence false in a new node. Both costs start
  at zero and are overwritten by the caller where the search reads them.
\<close>

definition TreeNode_new :: "nat \<Rightarrow> simulation_state \<Rightarrow> vec3 \<Rightarrow> TreeNode" where
  "TreeNode_new from start_state sp =
     \<lparr>total_cost_m = 0, heuristic_m = 0, origin_m = from, closed_m = False,
      state = start_state, setpoint = sp\<rparr>"

definition setCosts :: "real \<Rightarrow> real \<Rightarrow> TreeNode \<Rightarrow> TreeNode" where
  "setCosts h c n = n\<lparr>heuristic_m := h, total_cost_m := c\<rparr>"

definition getPosition :: "TreeNode \<Rightarrow> vec3" where
  "getPosition n = position (state n)"

definition getVelocity :: "TreeNode \<Rightarrow> vec3" where
  "getVelocity n = velocity (state n)"

definition getSetpoint :: "TreeNode \<Rightarrow> vec3" where
  "getSetpoint n = setpoint n"

text \<open>
  The members of \<^verbatim>\<open>StarPlanner\<close> that \<^verbatim>\<open>buildLookAheadTree\<close> reads or writes. The cost
  parameters and the point cloud are opaque: they are only handed to the cost function.
\<close>

record ('cp, 'cl) StarPlanner =
  tree_node_duration_m :: real
  tree_heuristic_weight_m :: real
  max_sensor_range_m :: real
  acceptance_radius_m :: real
  lims_m :: simulation_limits
  cost_params_m :: 'cp
  cloud_m :: 'cl
  position_m :: vec3
  velocity_m :: vec3
  q_m :: quaternion
  goal_m :: vec3
  tree_m :: "TreeNode list"
  closed_set_m :: "nat list"
  path_node_setpoints_m :: "vec3 list"
  starting_direction_m :: vec3

text \<open>
  The collaborators: \<open>now\<close> is \<^verbatim>\<open>ros::Time::now().toSec()\<close>; \<open>rotate q v\<close>, \<open>vec_minus a b\<close>,
  \<open>vec_norm v\<close> and \<open>vec_head2_norm v\<close> are Eigen's \<^verbatim>\<open>q * v\<close>, \<^verbatim>\<open>a - b\<close>, \<^verbatim>\<open>v.norm()\<close> and
  \<^verbatim>\<open>v.head<2>().norm()\<close> on float vectors; and \<open>generate_trajectory_back limits st step dir duration\<close> is the last state of
  \<^verbatim>\<open>TrajectorySimulator(limits, st, step).generate_trajectory(dir, duration)\<close>, the only state
  of the trajectory that the search reads.
\<close>

record ('cp, 'cl) externals =
  now :: real
  rotate :: "quaternion \<Rightarrow> vec3 \<Rightarrow> vec3"
  vec_minus :: "vec3 \<Rightarrow> vec3 \<Rightarrow> vec3"
  vec_norm :: "vec3 \<Rightarrow> real"
  vec_head2_norm :: "vec3 \<Rightarrow> real"
  generate_trajectory_back ::
    "simulation_limits \<Rightarrow> simulation_state \<Rightarrow> real \<Rightarrow> vec3 \<Rightarrow> real \<Rightarrow> simulation_state"
  simpleCost :: "TreeNode \<Rightarrow> vec3 \<Rightarrow> 'cp \<Rightarrow> 'cl \<Rightarrow> real"
  computeMaxSpeedFromBrakingDistance :: "real \<Rightarrow> real \<Rightarrow> real \<Rightarrow> real"

subsection \<open>The heuristic and the candidate directions\<close>

definition treeHeuristicFunction ::
  "('cp, 'cl) externals \<Rightarrow> ('cp, 'cl) StarPlanner \<Rightarrow> nat \<Rightarrow> real" where
  "treeHeuristicFunction E pl node_number =
     vec_norm E (vec_minus E (goal_m pl) (getPosition (tree_m pl ! node_number)))
       * tree_heuristic_weight_m pl"

definition candidates :: "vec3 list" where
  "candidates =
     [(1, 0, 0), (0, 1, 0), (0, 0, 1), (-1, 0, 0), (0, -1, 0), (0, 0, -1),
      (lit_0_707f, lit_0_707f, 0), (lit_0_707f, - lit_0_707f, 0),
      (- lit_0_707f, lit_0_707f, 0), (- lit_0_707f, - lit_0_707f, 0)]"

subsection \<open>One iteration of the expansion loop\<close>

text \<open>The locals of the function that live across iterations, with the object itself.\<close>

record ('cp, 'cl) frame =
  self :: "('cp, 'cl) StarPlanner"
  origin :: nat
  has_reached_goal :: bool

text \<open>\<^verbatim>\<open>tree_.back()\<close> used as an lvalue.\<close>

definition update_back :: "('a \<Rightarrow> 'a) \<Rightarrow> 'a list \<Rightarrow> 'a list" where
  "update_back f xs = xs[length xs - 1 := f (last xs)]"

text \<open>Lines 76 to 83: the limits of this iteration.\<close>

definition local_limits ::
  "('cp, 'cl) externals \<Rightarrow> ('cp, 'cl) StarPlanner \<Rightarrow> nat \<Rightarrow> simulation_limits" where
  "local_limits E pl org =
     (let limits = lims_m pl;
          st = state (tree_m pl ! org)
      in limits\<lparr>max_xy_velocity_norm :=
           min (min (computeMaxSpeedFromBrakingDistance E (max_jerk_norm (lims_m pl))
                       (max_acceleration_norm (lims_m pl))
                       (vec_head2_norm E (vec_minus E (position st) (goal_m pl))))
                    (computeMaxSpeedFromBrakingDistance E (max_jerk_norm (lims_m pl))
                       (max_acceleration_norm (lims_m pl)) (max_sensor_range_m pl)))
               (max_xy_velocity_norm (lims_m pl))\<rparr>)"

text \<open>Lines 89 and 90: \<^verbatim>\<open>a && b || c\<close> parses as \<^verbatim>\<open>(a && b) || c\<close>.\<close>

definition goal_or_horizon ::
  "('cp, 'cl) externals \<Rightarrow> ('cp, 'cl) StarPlanner \<Rightarrow> nat \<Rightarrow> bool" where
  "goal_or_horizon E pl org \<longleftrightarrow>
     (org > 1
      \<and> vec_norm E (vec_minus E (getPosition (tree_m pl ! org)) (goal_m pl)) < acceptance_radius_m pl)
     \<or> vec_norm E (vec_minus E (getPosition (tree_m pl ! org)) (position_m pl))
         \<ge> 2 * max_sensor_range_m pl"

text \<open>Lines 91 to 93 of the goal and horizon branch.\<close>

definition append_goal_node ::
  "('cp, 'cl) externals \<Rightarrow> ('cp, 'cl) StarPlanner \<Rightarrow> nat \<Rightarrow> ('cp, 'cl) StarPlanner" where
  "append_goal_node E pl org =
     (let pl1 = pl\<lparr>tree_m := tree_m pl @
                   [TreeNode_new org (simulation_state_at 0 (goal_m pl))
                      (vec_minus E (goal_m pl) (getPosition (tree_m pl ! org)))]\<rparr>;
          pl2 = pl1\<lparr>closed_set_m := closed_set_m pl1 @ [org]\<rparr>
      in pl2\<lparr>closed_set_m := closed_set_m pl2 @ [length (tree_m pl2) - 1]\<rparr>)"

text \<open>
  Lines 104 to 112: the scan for a node close to the end of the trajectory. It stops at the
  first node whose computed distance is below \<^verbatim>\<open>0.2f\<close>, so the counter is 0 or 1.
\<close>

fun close_nodes :: "('cp, 'cl) externals \<Rightarrow> TreeNode list \<Rightarrow> vec3 \<Rightarrow> nat" where
  "close_nodes E [] p = 0"
| "close_nodes E (n # ns) p =
     (if vec_norm E (vec_minus E (getPosition n) p) < lit_0_2f then 1 else close_nodes E ns p)"

text \<open>
  Lines 99 to 121: the body of the loop over the candidates. The counter \<^verbatim>\<open>children\<close> and
  the locals \<^verbatim>\<open>origin_position\<close> and \<^verbatim>\<open>origin_velocity\<close> of the iteration are only written by
  the source, never read, and are left out.
\<close>

definition add_candidate ::
  "('cp, 'cl) externals \<Rightarrow> simulation_limits \<Rightarrow> nat \<Rightarrow> vec3 \<Rightarrow>
   ('cp, 'cl) StarPlanner \<Rightarrow> ('cp, 'cl) StarPlanner" where
  "add_candidate E limits org candidate pl =
     (let st = state (tree_m pl ! org);
          back = generate_trajectory_back E limits st lit_0_05f (rotate E (q_m pl) candidate)
                   (tree_node_duration_m pl)
      in if close_nodes E (tree_m pl) (position back) = 0 then
           let pl1 = pl\<lparr>tree_m := tree_m pl @ [TreeNode_new org back (rotate E (q_m pl) candidate)]\<rparr>;
               h = treeHeuristicFunction E pl1 (length (tree_m pl1) - 1);
               pl2 = pl1\<lparr>tree_m := update_back (\<lambda>n. n\<lparr>heuristic_m := h\<rparr>) (tree_m pl1)\<rparr>;
               c = total_cost_m (tree_m pl2 ! org) - heuristic_m (tree_m pl2 ! org)
                   + simpleCost E (last (tree_m pl2)) (goal_m pl2) (cost_params_m pl2) (cloud_m pl2)
                   + h
           in pl2\<lparr>tree_m := update_back (\<lambda>n. n\<lparr>total_cost_m := c\<rparr>) (tree_m pl2)\<rparr>
         else pl)"

text \<open>
  Lines 128 to 136: the scan for the next origin, over the nodes from index \<open>i\<close> on, with the
  current values of \<^verbatim>\<open>minimal_cost\<close> and \<^verbatim>\<open>origin\<close>.
\<close>

fun find_best :: "TreeNode list \<Rightarrow> nat \<Rightarrow> real \<Rightarrow> nat \<Rightarrow> real \<times> nat" where
  "find_best [] i minimal_cost org = (minimal_cost, org)"
| "find_best (n # ns) i minimal_cost org =
     (if \<not> closed_m n \<and> total_cost_m n < minimal_cost
      then find_best ns (Suc i) (total_cost_m n) i
      else find_best ns (Suc i) minimal_cost org)"

text \<open>Lines 73 to 141: the body of the \<^verbatim>\<open>while\<close> loop.\<close>

definition loop_body :: "('cp, 'cl) externals \<Rightarrow> ('cp, 'cl) frame \<Rightarrow> ('cp, 'cl) frame" where
  "loop_body E s =
     (let pl = self s;
          limits = local_limits E pl (origin s)
      in if goal_or_horizon E pl (origin s) then
           s\<lparr>self := append_goal_node E pl (origin s), has_reached_goal := True\<rparr>
         else
           let pl1 = fold (add_candidate E limits (origin s)) candidates pl;
               pl2 = pl1\<lparr>closed_set_m := closed_set_m pl1 @ [origin s]\<rparr>;
               pl3 = pl2\<lparr>tree_m := (tree_m pl2)[origin s := (tree_m pl2 ! origin s)\<lparr>closed_m := True\<rparr>]\<rparr>;
               org' = snd (find_best (tree_m pl3) 0 FLT_MAX (origin s))
           in \<lparr>self = pl3, origin = org',
               has_reached_goal = (if length (tree_m pl3) \<le> 1 then True else has_reached_goal s)\<rparr>)"

text \<open>Lines 59 to 71: the tree with its root, and the first origin.\<close>

definition init_frame :: "('cp, 'cl) externals \<Rightarrow> ('cp, 'cl) StarPlanner \<Rightarrow> ('cp, 'cl) frame" where
  "init_frame E pl =
     (let pl0 = pl\<lparr>tree_m := [], closed_set_m := []\<rparr>;
          start_state = \<lparr>position = position_m pl0, velocity = velocity_m pl0,
                         acceleration = (0, 0, 0), time = now E\<rparr>;
          pl1 = pl0\<lparr>tree_m := tree_m pl0 @ [TreeNode_new 0 start_state Zero3]\<rparr>;
          pl2 = pl1\<lparr>tree_m := update_back
                   (setCosts (treeHeuristicFunction E pl1 0) (treeHeuristicFunction E pl1 0))
                   (tree_m pl1)\<rparr>
      in \<lparr>self = pl2, origin = 0, has_reached_goal = False\<rparr>)"

subsection \<open>The loops and the whole function\<close>

text \<open>
  The \<^verbatim>\<open>while (!has_reached_goal)\<close> loop; the \<^verbatim>\<open>break\<close> of the goal branch leaves it with
  the flag set. \<open>None\<close> is a loop that never ends.
\<close>

partial_function (option) expansion_loop ::
  "('cp, 'cl) externals \<Rightarrow> ('cp, 'cl) frame \<Rightarrow> ('cp, 'cl) frame option" where
  "expansion_loop E s =
     (if has_reached_goal s then Some s else expansion_loop E (loop_body E s))"

text \<open>Lines 147 to 150: the walk along the parent links.\<close>

partial_function (option) collect_setpoints ::
  "TreeNode list \<Rightarrow> nat \<Rightarrow> vec3 list \<Rightarrow> vec3 list option" where
  "collect_setpoints tree tree_end path =
     (if tree_end > 0
      then collect_setpoints tree (origin_m (tree ! tree_end)) (path @ [getSetpoint (tree ! tree_end)])
      else Some path)"

datatype error = Index_out_of_range

text \<open>
  Lines 152 to 155. \<^verbatim>\<open>size()\<close> is a \<^verbatim>\<open>size_t\<close>, so the subtraction and the comparison with
  zero are unsigned; a read of the vector outside its bounds is the error.
\<close>

definition set_starting_direction ::
  "('cp, 'cl) StarPlanner \<Rightarrow> error + ('cp, 'cl) StarPlanner" where
  "set_starting_direction pl =
     (let idx = (word_of_nat (length (path_node_setpoints_m pl)) - 2 :: 64 word)
      in if idx \<ge> 0 then
           if unat idx < length (path_node_setpoints_m pl)
           then Inr (pl\<lparr>starting_direction_m := path_node_setpoints_m pl ! unat idx\<rparr>)
           else Inl Index_out_of_range
         else Inr pl)"

definition buildLookAheadTree ::
  "('cp, 'cl) externals \<Rightarrow> ('cp, 'cl) StarPlanner \<Rightarrow> (error + ('cp, 'cl) StarPlanner) option" where
  "buildLookAheadTree E pl =
     (case expansion_loop E (init_frame E pl) of
        None \<Rightarrow> None
      | Some s \<Rightarrow>
          (case collect_setpoints (tree_m (self s)) (origin s) [] of
             None \<Rightarrow> None
           | Some path \<Rightarrow>
               Some (set_starting_direction
                 ((self s)\<lparr>path_node_setpoints_m := path @ [getSetpoint (tree_m (self s) ! 0)]\<rparr>))))"

subsection \<open>Notions for the statements\<close>

text \<open>
  The computed distance from some node of the list to the point is below \<^verbatim>\<open>0.2f\<close>: what the
  scan of lines 104 to 112 finds out.
\<close>

definition near :: "('cp, 'cl) externals \<Rightarrow> TreeNode list \<Rightarrow> vec3 \<Rightarrow> bool" where
  "near E ns p \<longleftrightarrow> (\<exists>n\<in>set ns. vec_norm E (vec_minus E (getPosition n) p) < lit_0_2f)"

text \<open>
  The end of the trajectory that line 101 generates for a candidate, and the node that lines
  115 to 119 append for it: parent \<open>org\<close>, the heuristic of its position, and the total cost
  from the costs of the parent and the cost function, which sees the node with its heuristic
  set and its total cost still at the value of the constructor.
\<close>

definition candidate_back ::
  "('cp, 'cl) externals \<Rightarrow> simulation_limits \<Rightarrow> ('cp, 'cl) StarPlanner \<Rightarrow> nat \<Rightarrow> vec3 \<Rightarrow>
   simulation_state" where
  "candidate_back E limits pl org c =
     generate_trajectory_back E limits (state (tree_m pl ! org)) lit_0_05f (rotate E (q_m pl) c)
       (tree_node_duration_m pl)"

definition child_node ::
  "('cp, 'cl) externals \<Rightarrow> simulation_limits \<Rightarrow> ('cp, 'cl) StarPlanner \<Rightarrow> nat \<Rightarrow> vec3 \<Rightarrow>
   TreeNode" where
  "child_node E limits pl org c =
     (let back = candidate_back E limits pl org c;
          h = vec_norm E (vec_minus E (goal_m pl) (position back)) * tree_heuristic_weight_m pl;
          n = (TreeNode_new org back (rotate E (q_m pl) c))\<lparr>heuristic_m := h\<rparr>
      in n\<lparr>total_cost_m := total_cost_m (tree_m pl ! org) - heuristic_m (tree_m pl ! org)
            + simpleCost E n (goal_m pl) (cost_params_m pl) (cloud_m pl) + h\<rparr>)"

subsection \<open>The expansion of a node\<close>

text \<open>
  The computed distance from a point to itself is below \<^verbatim>\<open>0.2f\<close>. Float arithmetic gives
  zero; the model assumes it only where it says so.
\<close>

definition self_close :: "('cp, 'cl) externals \<Rightarrow> bool" where
  "self_close E \<longleftrightarrow> (\<forall>p. vec_norm E (vec_minus E p p) < lit_0_2f)"

text \<open>
  For any two nodes of the list the computed distance, from the earlier to the later one as
  line 107 takes it, is not below \<^verbatim>\<open>0.2f\<close>.
\<close>

definition far_apart :: "('cp, 'cl) externals \<Rightarrow> TreeNode list \<Rightarrow> bool" where
  "far_apart E ns \<longleftrightarrow>
     (\<forall>i j. i < j \<and> j < length ns \<longrightarrow>
        lit_0_2f \<le> vec_norm E (vec_minus E (getPosition (ns ! i)) (getPosition (ns ! j))))"

text \<open>
  Line 125, and the node of line 91.
\<close>

definition close_origin :: "TreeNode list \<Rightarrow> nat \<Rightarrow> TreeNode list" where
  "close_origin tree org = tree[org := (tree ! org)\<lparr>closed_m := True\<rparr>]"

definition goal_node ::
  "('cp, 'cl) externals \<Rightarrow> ('cp, 'cl) StarPlanner \<Rightarrow> nat \<Rightarrow> TreeNode" where
  "goal_node E pl org =
     TreeNode_new org (simulation_state_at 0 (goal_m pl))
       (vec_minus E (goal_m pl) (getPosition (tree_m pl ! org)))"

text \<open>
  The states of the loop during a call for the planner \<open>pl\<close>: the state before the first
  iteration, and the state after an iteration entered with the flag not set. The state in
  which the loop ends is one of them.
\<close>

inductive reachable ::
  "('cp, 'cl) externals \<Rightarrow> ('cp, 'cl) StarPlanner \<Rightarrow> ('cp, 'cl) frame \<Rightarrow> bool"
  for E :: "('cp, 'cl) externals" and pl :: "('cp, 'cl) StarPlanner" where
  start: "reachable E pl (init_frame E pl)"
| iterate: "reachable E pl s \<Longrightarrow> \<not> has_reached_goal s \<Longrightarrow> reachable E pl (loop_body E s)"

text \<open>
  The root as lines 63 to 69 build it.
\<close>

definition root_node :: "('cp, 'cl) externals \<Rightarrow> ('cp, 'cl) StarPlanner \<Rightarrow> TreeNode" where
  "root_node E pl =
     \<lparr>total_cost_m = vec_norm E (vec_minus E (goal_m pl) (position_m pl)) * tree_heuristic_weight_m pl,
      heuristic_m = vec_norm E (vec_minus E (goal_m pl) (position_m pl)) * tree_heuristic_weight_m pl,
      origin_m = 0, closed_m = False,
      state = \<lparr>position = position_m pl, velocity = velocity_m pl,
                acceleration = (0, 0, 0), time = now E\<rparr>,
      setpoint = Zero3\<rparr>"

text \<open>
  The parent of every node but the root has a smaller index.
\<close>

definition parents_below :: "TreeNode list \<Rightarrow> bool" where
  "parents_below tree \<longleftrightarrow> (\<forall>i. 0 < i \<and> i < length tree \<longrightarrow> origin_m (tree ! i) < i)"

text \<open>
  The number of nodes that come from the root and the expansions. The loop ends with more than
  one node only through the goal and horizon branch (the stuck test needs at most one), and
  that branch appends its node last: in a state with the flag set and more than one node, the
  last node is the node of the goal branch, and no other state has one.
\<close>

definition search_nodes :: "('cp, 'cl) frame \<Rightarrow> nat" where
  "search_nodes s =
     (if has_reached_goal s \<and> 1 < length (tree_m (self s))
      then length (tree_m (self s)) - 1 else length (tree_m (self s)))"

text \<open>
  The cost equations of node \<open>i\<close>: its heuristic, and its total cost from the costs of its
  parent and the value of the cost function for the node as it was when appended.
\<close>

definition cost_ok :: "('cp, 'cl) externals \<Rightarrow> ('cp, 'cl) StarPlanner \<Rightarrow> TreeNode list \<Rightarrow> nat \<Rightarrow> bool" where
  "cost_ok E pl tree i \<longleftrightarrow>
     heuristic_m (tree ! i)
       = vec_norm E (vec_minus E (goal_m pl) (getPosition (tree ! i))) * tree_heuristic_weight_m pl
     \<and> total_cost_m (tree ! i)
       = (total_cost_m (tree ! origin_m (tree ! i)) - heuristic_m (tree ! origin_m (tree ! i)))
         + simpleCost E ((tree ! i)\<lparr>total_cost_m := 0, closed_m := False\<rparr>)
             (goal_m pl) (cost_params_m pl) (cloud_m pl)
         + heuristic_m (tree ! i)"

definition costs_ok :: "('cp, 'cl) externals \<Rightarrow> ('cp, 'cl) StarPlanner \<Rightarrow> nat \<Rightarrow> bool" where
  "costs_ok E pl k \<longleftrightarrow> (\<forall>i. 0 < i \<and> i < k \<longrightarrow> cost_ok E pl (tree_m pl) i)"

text \<open>
  Every candidate of node \<open>i\<close> ends close to a node of the tree: expanding \<open>i\<close> appends
  nothing.
\<close>

definition expanded :: "('cp, 'cl) externals \<Rightarrow> ('cp, 'cl) StarPlanner \<Rightarrow> nat \<Rightarrow> bool" where
  "expanded E pl i \<longleftrightarrow>
     (\<forall>c\<in>set candidates.
        near E (tree_m pl) (position (candidate_back E (local_limits E pl i) pl i c)))"

text \<open>
  A state from which the loop does not get away: the origin is closed and expands to nothing,
  the scan finds no open node below \<^verbatim>\<open>FLT_MAX\<close>, neither exit test holds.
\<close>

definition dead_end :: "('cp, 'cl) externals \<Rightarrow> ('cp, 'cl) frame \<Rightarrow> bool" where
  "dead_end E s \<longleftrightarrow>
     \<not> has_reached_goal s \<and> 1 < length (tree_m (self s)) \<and> origin s < length (tree_m (self s))
     \<and> closed_m (tree_m (self s) ! origin s) \<and> expanded E (self s) (origin s)
     \<and> (\<forall>n\<in>set (tree_m (self s)). closed_m n \<or> FLT_MAX \<le> total_cost_m n)
     \<and> \<not> goal_or_horizon E (self s) (origin s)"

subsection \<open>Examples\<close>

text \<open>
  Collaborators for the examples: every trajectory ends at the position \<open>p\<close>, whatever the
  direction is (the stub of the spec's stuck scenario), every edge costs \<open>c\<close>, the rotation is
  the identity and the braking speed for a distance is the distance itself. The operations on
  vectors are the ones without rounding: the examples that use these collaborators only take
  differences and norms of vectors along the first axis with the coordinates 0, 1 and 2, where
  float arithmetic is exact.
\<close>

definition stub_externals :: "vec3 \<Rightarrow> real \<Rightarrow> (unit, unit) externals" where
  "stub_externals p c =
     \<lparr>now = 0, rotate = (\<lambda>q v. v), vec_minus = vsub, vec_norm = norm3,
      vec_head2_norm = head2_norm,
      generate_trajectory_back = (\<lambda>limits st step dir duration. st\<lparr>position := p\<rparr>),
      simpleCost = (\<lambda>n goal cp cl. c),
      computeMaxSpeedFromBrakingDistance = (\<lambda>jerk acc d. d)\<rparr>"

text \<open>
  A planner at the origin with the goal at \<open>(2, 0, 0)\<close>, an acceptance radius of 0.5 and the
  maximal sensor range \<open>r\<close>.
\<close>

definition demo_planner :: "real \<Rightarrow> (unit, unit) StarPlanner" where
  "demo_planner r =
     \<lparr>tree_node_duration_m = 1, tree_heuristic_weight_m = 1, max_sensor_range_m = r,
      acceptance_radius_m = 1 / 2,
      lims_m = \<lparr>max_xy_velocity_norm = 3, max_acceleration_norm = 2, max_jerk_norm = 20\<rparr>,
      cost_params_m = (), cloud_m = (), position_m = (0, 0, 0), velocity_m = (0, 0, 0),
      q_m = (1, 0, 0, 0), goal_m = (2, 0, 0), tree_m = [], closed_set_m = [],
      path_node_setpoints_m = [], starting_direction_m = (0, 0, 0)\<rparr>"

text \<open>The stuck scenario after its only iteration: the root alone, closed.\<close>

definition stuck_frame :: "(unit, unit) frame" where
  "stuck_frame =
     \<lparr>self = (demo_planner 10)
        \<lparr>tree_m := [\<lparr>total_cost_m = 2, heuristic_m = 2, origin_m = 0, closed_m = True,
            state = \<lparr>position = (0, 0, 0), velocity = (0, 0, 0), acceleration = (0, 0, 0), time = 0\<rparr>,
            setpoint = (0, 0, 0)\<rparr>],
         closed_set_m := [0]\<rparr>,
      origin = 0, has_reached_goal = True\<rparr>"

text \<open>
  The example with two nodes: all trajectories end at \<open>(1, 0, 0)\<close>, the root gets one child,
  which becomes the origin. \<open>c\<close> is the closed flag of the child.
\<close>

definition two_nodes :: "bool \<Rightarrow> nat list \<Rightarrow> (unit, unit) frame" where
  "two_nodes c cs =
     \<lparr>self = (demo_planner 10)
        \<lparr>tree_m := [\<lparr>total_cost_m = 2, heuristic_m = 2, origin_m = 0, closed_m = True,
            state = \<lparr>position = (0, 0, 0), velocity = (0, 0, 0), acceleration = (0, 0, 0), time = 0\<rparr>,
            setpoint = (0, 0, 0)\<rparr>,
           \<lparr>total_cost_m = 2, heuristic_m = 1, origin_m = 0, closed_m = c,
            state = \<lparr>position = (1, 0, 0), velocity = (0, 0, 0), acceleration = (0, 0, 0), time = 0\<rparr>,
            setpoint = (1, 0, 0)\<rparr>],
         closed_set_m := cs\<rparr>,
      origin = 1, has_reached_goal = False\<rparr>"

text \<open>
  The example with two nodes and a third node at the goal, \<open>(2, 0, 0)\<close>, as origin.
\<close>

definition at_goal_frame :: "(unit, unit) frame" where
  "at_goal_frame =
     (two_nodes True [0, 1])
       \<lparr>self := (self (two_nodes True [0, 1]))
          \<lparr>tree_m := tree_m (self (two_nodes True [0, 1]))
             @ [TreeNode_new 1 (simulation_state_at 0 (2, 0, 0)) (1, 0, 0)]\<rparr>,
        origin := 2\<rparr>"




section \<open>Properties of the search\<close>

subsection \<open>Distances and the scan for close nodes\<close>

lemma norm3_vsub_self: "norm3 (vsub p p) = 0"
  by (cases p) simp

lemma close_nodes_near: "close_nodes E ns p \<noteq> 0 \<longleftrightarrow> near E ns p"
  by (induction ns) (auto simp: near_def)

lemma close_nodes_zero: "close_nodes E ns p = 0 \<longleftrightarrow> \<not> near E ns p"
  using close_nodes_near [of E ns p] by blast


lemma near_append: "near E (xs @ ys) p \<longleftrightarrow> near E xs p \<or> near E ys p"
  by (auto simp: near_def)

text \<open>
  With the origin inside the tree, \<open>add_candidate\<close> either leaves the planner alone or
  appends the node of the candidate.
\<close>

lemma add_candidate_eq:
  assumes "org < length (tree_m pl)"
  shows "add_candidate E limits org c pl =
     (if near E (tree_m pl) (position (candidate_back E limits pl org c)) then pl
      else pl\<lparr>tree_m := tree_m pl @ [child_node E limits pl org c]\<rparr>)"
  using assms
  by (simp add: add_candidate_def close_nodes_zero candidate_back_def child_node_def Let_def
      update_back_def treeHeuristicFunction_def nth_append getPosition_def TreeNode_new_def)

lemma candidate_back_ext:
  "org < length (tree_m pl) \<Longrightarrow>
   candidate_back E limits (pl\<lparr>tree_m := tree_m pl @ ns\<rparr>) org c = candidate_back E limits pl org c"
  by (simp add: candidate_back_def nth_append)

lemma child_node_ext:
  "org < length (tree_m pl) \<Longrightarrow>
   child_node E limits (pl\<lparr>tree_m := tree_m pl @ ns\<rparr>) org c = child_node E limits pl org c"
  by (simp add: child_node_def candidate_back_ext nth_append)

lemma far_apart_snoc:
  "far_apart E (ns @ [n]) \<longleftrightarrow> far_apart E ns \<and> \<not> near E ns (getPosition n)"
proof
  assume a: "far_apart E (ns @ [n])"
  have "far_apart E ns"
    unfolding far_apart_def
  proof (intro allI impI)
    fix i j assume "i < j \<and> j < length ns"
    then show "lit_0_2f \<le> vec_norm E (vec_minus E (getPosition (ns ! i)) (getPosition (ns ! j)))"
      using a [unfolded far_apart_def, rule_format, of i j] by (simp add: nth_append)
  qed
  moreover have "\<not> near E ns (getPosition n)"
  proof
    assume "near E ns (getPosition n)"
    then obtain i where "i < length ns" "vec_norm E (vec_minus E (getPosition (ns ! i)) (getPosition n)) < lit_0_2f"
      by (auto simp: near_def in_set_conv_nth)
    then show False
      using a [unfolded far_apart_def, rule_format, of i "length ns"] by (simp add: nth_append)
  qed
  ultimately show "far_apart E ns \<and> \<not> near E ns (getPosition n)" ..
next
  assume a: "far_apart E ns \<and> \<not> near E ns (getPosition n)"
  show "far_apart E (ns @ [n])"
    unfolding far_apart_def
  proof (intro allI impI)
    fix i j assume ij: "i < j \<and> j < length (ns @ [n])"
    show "lit_0_2f \<le> vec_norm E (vec_minus E (getPosition ((ns @ [n]) ! i)) (getPosition ((ns @ [n]) ! j)))"
    proof (cases "j < length ns")
      case True
      then show ?thesis using a ij by (simp add: far_apart_def nth_append)
    next
      case False
      then have j: "j = length ns" using ij by simp
      then have "ns ! i \<in> set ns" using ij by simp
      then have "\<not> vec_norm E (vec_minus E (getPosition (ns ! i)) (getPosition n)) < lit_0_2f"
        using a by (auto simp: near_def)
      then show ?thesis using j ij by (simp add: nth_append)
    qed
  qed
qed

text \<open>
  The loop over the candidates appends nodes of candidates only, keeps nodes apart, and, when
  a point is close to itself, leaves every candidate with a node close to the end of its
  trajectory.
\<close>

lemma expand_result:
  "org < length (tree_m pl) \<Longrightarrow>
   \<exists>ns. fold (add_candidate E limits org) cs pl = pl\<lparr>tree_m := tree_m pl @ ns\<rparr>
      \<and> (\<forall>n\<in>set ns. \<exists>c\<in>set cs. n = child_node E limits pl org c)
      \<and> (far_apart E (tree_m pl) \<longrightarrow> far_apart E (tree_m pl @ ns))
      \<and> (self_close E \<longrightarrow>
           (\<forall>c\<in>set cs. near E (tree_m pl @ ns) (position (candidate_back E limits pl org c))))"
proof (induction cs arbitrary: pl)
  case Nil
  show ?case by (rule exI [of _ "[]"]) simp
next
  case (Cons c cs)
  let ?p = "position (candidate_back E limits pl org c)"
  show ?case
  proof (cases "near E (tree_m pl) ?p")
    case True
    then have eq: "add_candidate E limits org c pl = pl"
      using Cons.prems by (simp add: add_candidate_eq)
    from Cons.IH [OF Cons.prems] obtain ns where
      ns: "fold (add_candidate E limits org) cs pl = pl\<lparr>tree_m := tree_m pl @ ns\<rparr>"
        "\<forall>n\<in>set ns. \<exists>c\<in>set cs. n = child_node E limits pl org c"
        "far_apart E (tree_m pl) \<longrightarrow> far_apart E (tree_m pl @ ns)"
        "self_close E \<longrightarrow>
           (\<forall>c\<in>set cs. near E (tree_m pl @ ns) (position (candidate_back E limits pl org c)))"
      by blast
    show ?thesis
    proof (intro exI [of _ ns] conjI)
      show "fold (add_candidate E limits org) (c # cs) pl = pl\<lparr>tree_m := tree_m pl @ ns\<rparr>"
        using eq ns(1) by simp
      show "\<forall>n\<in>set ns. \<exists>c\<in>set (c # cs). n = child_node E limits pl org c"
        using ns(2) by auto
      show "far_apart E (tree_m pl) \<longrightarrow> far_apart E (tree_m pl @ ns)" by (rule ns(3))
      show "self_close E \<longrightarrow>
          (\<forall>c\<in>set (c # cs). near E (tree_m pl @ ns) (position (candidate_back E limits pl org c)))"
        using ns(4) True by (auto simp: near_append)
    qed
  next
    case False
    let ?ch = "child_node E limits pl org c"
    let ?pl1 = "pl\<lparr>tree_m := tree_m pl @ [?ch]\<rparr>"
    have eq: "add_candidate E limits org c pl = ?pl1"
      using Cons.prems False by (simp add: add_candidate_eq)
    have len: "org < length (tree_m ?pl1)" using Cons.prems by simp
    have pos: "getPosition ?ch = ?p"
      by (simp add: child_node_def Let_def getPosition_def TreeNode_new_def)
    from Cons.IH [OF len] obtain ns where
      ns: "fold (add_candidate E limits org) cs ?pl1 = ?pl1\<lparr>tree_m := tree_m ?pl1 @ ns\<rparr>"
        "\<forall>n\<in>set ns. \<exists>c\<in>set cs. n = child_node E limits ?pl1 org c"
        "far_apart E (tree_m ?pl1) \<longrightarrow> far_apart E (tree_m ?pl1 @ ns)"
        "self_close E \<longrightarrow>
           (\<forall>c\<in>set cs. near E (tree_m ?pl1 @ ns) (position (candidate_back E limits ?pl1 org c)))"
      by blast
    show ?thesis
    proof (intro exI [of _ "?ch # ns"] conjI)
      show "fold (add_candidate E limits org) (c # cs) pl = pl\<lparr>tree_m := tree_m pl @ ?ch # ns\<rparr>"
        using eq ns(1) by simp
      show "\<forall>n\<in>set (?ch # ns). \<exists>c\<in>set (c # cs). n = child_node E limits pl org c"
        using ns(2) Cons.prems by (auto simp: child_node_ext)
      show "far_apart E (tree_m pl) \<longrightarrow> far_apart E (tree_m pl @ ?ch # ns)"
        using ns(3) False by (simp add: far_apart_snoc pos)
      show "self_close E \<longrightarrow>
          (\<forall>c\<in>set (c # cs). near E (tree_m pl @ ?ch # ns) (position (candidate_back E limits pl org c)))"
      proof
        assume sc: "self_close E"
        then have "vec_norm E (vec_minus E ?p ?p) < lit_0_2f"
          unfolding self_close_def by (rule spec)
        then have "near E [?ch] ?p"
          by (simp add: near_def pos)
        then show "\<forall>c\<in>set (c # cs). near E (tree_m pl @ ?ch # ns) (position (candidate_back E limits pl org c))"
          using ns(4) sc Cons.prems by (auto simp: near_append candidate_back_ext near_def)
      qed
    qed
  qed
qed

subsection \<open>The scan for the next origin\<close>

lemma find_best_unchanged:
  "\<forall>n\<in>set ns. closed_m n \<or> mc \<le> total_cost_m n \<Longrightarrow> find_best ns i mc org = (mc, org)"
  by (induction ns arbitrary: i) auto

lemma find_best_found:
  "\<exists>n\<in>set ns. \<not> closed_m n \<and> total_cost_m n < mc \<Longrightarrow>
   \<exists>k. k < length ns \<and> find_best ns i mc org = (total_cost_m (ns ! k), i + k)
      \<and> \<not> closed_m (ns ! k) \<and> total_cost_m (ns ! k) < mc
      \<and> (\<forall>n\<in>set ns. \<not> closed_m n \<longrightarrow> total_cost_m (ns ! k) \<le> total_cost_m n)
      \<and> (\<forall>j<k. \<not> closed_m (ns ! j) \<longrightarrow> total_cost_m (ns ! k) < total_cost_m (ns ! j))"
proof (induction ns arbitrary: i mc org)
  case Nil
  then show ?case by simp
next
  case (Cons n ns)
  show ?case
  proof (cases "\<not> closed_m n \<and> total_cost_m n < mc")
    case True
    note hit = True
    show ?thesis
    proof (cases "\<exists>m\<in>set ns. \<not> closed_m m \<and> total_cost_m m < total_cost_m n")
      case True
      from Cons.IH [OF True, of "Suc i" i] obtain k where
        k: "k < length ns" "find_best ns (Suc i) (total_cost_m n) i = (total_cost_m (ns ! k), Suc i + k)"
          "\<not> closed_m (ns ! k)" "total_cost_m (ns ! k) < total_cost_m n"
          "\<forall>m\<in>set ns. \<not> closed_m m \<longrightarrow> total_cost_m (ns ! k) \<le> total_cost_m m"
          "\<forall>j<k. \<not> closed_m (ns ! j) \<longrightarrow> total_cost_m (ns ! k) < total_cost_m (ns ! j)"
        by blast
      show ?thesis
      proof (intro exI [of _ "Suc k"] conjI)
        show "Suc k < length (n # ns)" using k(1) by simp
        show "find_best (n # ns) i mc org = (total_cost_m ((n # ns) ! Suc k), i + Suc k)"
          using hit k(2) by simp
        show "\<not> closed_m ((n # ns) ! Suc k)" using k(3) by simp
        show "total_cost_m ((n # ns) ! Suc k) < mc" using k(4) hit by simp
        show "\<forall>m\<in>set (n # ns). \<not> closed_m m \<longrightarrow> total_cost_m ((n # ns) ! Suc k) \<le> total_cost_m m"
          using k(4,5) by auto
        show "\<forall>j<Suc k. \<not> closed_m ((n # ns) ! j) \<longrightarrow>
                total_cost_m ((n # ns) ! Suc k) < total_cost_m ((n # ns) ! j)"
        proof (intro allI impI)
          fix j assume "j < Suc k" "\<not> closed_m ((n # ns) ! j)"
          then show "total_cost_m ((n # ns) ! Suc k) < total_cost_m ((n # ns) ! j)"
            using k(4,6) by (cases j) auto
        qed
      qed
    next
      case False
      then have "\<forall>m\<in>set ns. closed_m m \<or> total_cost_m n \<le> total_cost_m m" by auto
      then have fb: "find_best ns (Suc i) (total_cost_m n) i = (total_cost_m n, i)"
        by (rule find_best_unchanged)
      show ?thesis
      proof (intro exI [of _ 0] conjI)
        show "find_best (n # ns) i mc org = (total_cost_m ((n # ns) ! 0), i + 0)"
          using hit fb by simp
        show "\<forall>m\<in>set (n # ns). \<not> closed_m m \<longrightarrow> total_cost_m ((n # ns) ! 0) \<le> total_cost_m m"
          using False by auto
      qed (use hit in simp_all)
    qed
  next
    case False
    then have ex: "\<exists>m\<in>set ns. \<not> closed_m m \<and> total_cost_m m < mc"
      using Cons.prems by auto
    from Cons.IH [OF ex, of "Suc i" org] obtain k where
      k: "k < length ns" "find_best ns (Suc i) mc org = (total_cost_m (ns ! k), Suc i + k)"
        "\<not> closed_m (ns ! k)" "total_cost_m (ns ! k) < mc"
        "\<forall>m\<in>set ns. \<not> closed_m m \<longrightarrow> total_cost_m (ns ! k) \<le> total_cost_m m"
        "\<forall>j<k. \<not> closed_m (ns ! j) \<longrightarrow> total_cost_m (ns ! k) < total_cost_m (ns ! j)"
      by blast
    show ?thesis
    proof (intro exI [of _ "Suc k"] conjI)
      show "Suc k < length (n # ns)" using k(1) by simp
      show "find_best (n # ns) i mc org = (total_cost_m ((n # ns) ! Suc k), i + Suc k)"
        using False k(2) by auto
      show "\<not> closed_m ((n # ns) ! Suc k)" using k(3) by simp
      show "total_cost_m ((n # ns) ! Suc k) < mc" using k(4) by simp
      show "\<forall>m\<in>set (n # ns). \<not> closed_m m \<longrightarrow> total_cost_m ((n # ns) ! Suc k) \<le> total_cost_m m"
        using k(4,5) False by auto
      show "\<forall>j<Suc k. \<not> closed_m ((n # ns) ! j) \<longrightarrow>
              total_cost_m ((n # ns) ! Suc k) < total_cost_m ((n # ns) ! j)"
      proof (intro allI impI)
        fix j assume "j < Suc k" "\<not> closed_m ((n # ns) ! j)"
        then show "total_cost_m ((n # ns) ! Suc k) < total_cost_m ((n # ns) ! j)"
          using k(4,6) False by (cases j) auto
      qed
    qed
  qed
qed

lemma find_best_range:
  "org < length ns \<Longrightarrow> snd (find_best ns 0 mc org) < length ns"
proof (cases "\<exists>n\<in>set ns. \<not> closed_m n \<and> total_cost_m n < mc")
  case True
  from find_best_found [OF True, of 0 org] show ?thesis by auto
next
  case False
  assume "org < length ns"
  moreover from False have "find_best ns 0 mc org = (mc, org)"
    by (intro find_best_unchanged) auto
  ultimately show ?thesis by simp
qed

subsection \<open>The two branches of an iteration\<close>

lemma loop_body_goal:
  "goal_or_horizon E (self s) (origin s) \<Longrightarrow>
   loop_body E s =
     s\<lparr>self := (self s)\<lparr>tree_m := tree_m (self s) @ [goal_node E (self s) (origin s)],
                         closed_set_m := closed_set_m (self s) @ [origin s, length (tree_m (self s))]\<rparr>,
       has_reached_goal := True\<rparr>"
  by (simp add: loop_body_def append_goal_node_def goal_node_def Let_def)

lemma loop_body_expand:
  assumes "\<not> goal_or_horizon E (self s) (origin s)" and "origin s < length (tree_m (self s))"
  shows "\<exists>ns. loop_body E s =
       \<lparr>self = (self s)\<lparr>tree_m := close_origin (tree_m (self s) @ ns) (origin s),
                          closed_set_m := closed_set_m (self s) @ [origin s]\<rparr>,
        origin = snd (find_best (close_origin (tree_m (self s) @ ns) (origin s)) 0 FLT_MAX (origin s)),
        has_reached_goal = (if length (tree_m (self s) @ ns) \<le> 1 then True else has_reached_goal s)\<rparr>
     \<and> (\<forall>n\<in>set ns. \<exists>c\<in>set candidates.
            n = child_node E (local_limits E (self s) (origin s)) (self s) (origin s) c)
     \<and> (far_apart E (tree_m (self s)) \<longrightarrow> far_apart E (tree_m (self s) @ ns))
     \<and> (self_close E \<longrightarrow>
          (\<forall>c\<in>set candidates. near E (tree_m (self s) @ ns)
            (position (candidate_back E (local_limits E (self s) (origin s)) (self s) (origin s) c))))"
proof -
  from expand_result [OF assms(2), of E "local_limits E (self s) (origin s)" candidates]
  obtain ns where
    ns: "fold (add_candidate E (local_limits E (self s) (origin s)) (origin s)) candidates (self s)
           = (self s)\<lparr>tree_m := tree_m (self s) @ ns\<rparr>"
      "\<forall>n\<in>set ns. \<exists>c\<in>set candidates.
            n = child_node E (local_limits E (self s) (origin s)) (self s) (origin s) c"
      "far_apart E (tree_m (self s)) \<longrightarrow> far_apart E (tree_m (self s) @ ns)"
      "self_close E \<longrightarrow>
          (\<forall>c\<in>set candidates. near E (tree_m (self s) @ ns)
            (position (candidate_back E (local_limits E (self s) (origin s)) (self s) (origin s) c)))"
    by blast
  have "loop_body E s =
       \<lparr>self = (self s)\<lparr>tree_m := close_origin (tree_m (self s) @ ns) (origin s),
                          closed_set_m := closed_set_m (self s) @ [origin s]\<rparr>,
        origin = snd (find_best (close_origin (tree_m (self s) @ ns) (origin s)) 0 FLT_MAX (origin s)),
        has_reached_goal = (if length (tree_m (self s) @ ns) \<le> 1 then True else has_reached_goal s)\<rparr>"
    using assms(1) by (simp add: loop_body_def Let_def ns(1) close_origin_def)
  with ns(2,3,4) show ?thesis by blast
qed

lemma length_close_origin [simp]: "length (close_origin tree org) = length tree"
  by (simp add: close_origin_def)

lemma nth_close_origin:
  "i < length tree \<Longrightarrow>
   close_origin tree org ! i = (if i = org then (tree ! i)\<lparr>closed_m := True\<rparr> else tree ! i)"
  by (auto simp: close_origin_def)

lemma init_frame_eq:
  "init_frame E pl =
     \<lparr>self = pl\<lparr>tree_m := [root_node E pl], closed_set_m := []\<rparr>,
      origin = 0, has_reached_goal = False\<rparr>"
  by (simp add: init_frame_def root_node_def Let_def update_back_def setCosts_def TreeNode_new_def
      treeHeuristicFunction_def getPosition_def)

subsection \<open>Invariants of the loop\<close>

text \<open>
  The origin is always an index of the tree, so that no read \<open>tree ! origin\<close> of the model
  is out of range in a state of the loop.
\<close>

lemma origin_in_range: "reachable E pl s \<Longrightarrow> origin s < length (tree_m (self s))"
proof (induction rule: reachable.induct)
  case start
  show ?case by (simp add: init_frame_eq)
next
  case (iterate s)
  show ?case
  proof (cases "goal_or_horizon E (self s) (origin s)")
    case True
    then show ?thesis using iterate.IH by (simp add: loop_body_goal)
  next
    case False
    from loop_body_expand [OF False iterate.IH] obtain ns where
      "loop_body E s =
       \<lparr>self = (self s)\<lparr>tree_m := close_origin (tree_m (self s) @ ns) (origin s),
                          closed_set_m := closed_set_m (self s) @ [origin s]\<rparr>,
        origin = snd (find_best (close_origin (tree_m (self s) @ ns) (origin s)) 0 FLT_MAX (origin s)),
        has_reached_goal = (if length (tree_m (self s) @ ns) \<le> 1 then True else has_reached_goal s)\<rparr>"
      by blast
    moreover have "snd (find_best (close_origin (tree_m (self s) @ ns) (origin s)) 0 FLT_MAX (origin s))
        < length (close_origin (tree_m (self s) @ ns) (origin s))"
      using iterate.IH by (intro find_best_range) simp
    ultimately show ?thesis by simp
  qed
qed

text \<open>One iteration: the old nodes stay, up to their closed flags, and the new ones hang
  below the origin.\<close>

lemma loop_body_tree:
  assumes "origin s < length (tree_m (self s))"
  shows "length (tree_m (self s)) \<le> length (tree_m (self (loop_body E s)))
     \<and> (\<forall>i<length (tree_m (self s)).
          tree_m (self (loop_body E s)) ! i
            = (tree_m (self s) ! i)\<lparr>closed_m := closed_m (tree_m (self (loop_body E s)) ! i)\<rparr>)
     \<and> (\<forall>i. length (tree_m (self s)) \<le> i \<and> i < length (tree_m (self (loop_body E s))) \<longrightarrow>
          origin_m (tree_m (self (loop_body E s)) ! i) = origin s)"
proof (cases "goal_or_horizon E (self s) (origin s)")
  case True
  show ?thesis
  proof (intro conjI allI impI)
    show "length (tree_m (self s)) \<le> length (tree_m (self (loop_body E s)))"
      by (simp add: loop_body_goal [OF True])
    fix i assume "i < length (tree_m (self s))"
    then show "tree_m (self (loop_body E s)) ! i
            = (tree_m (self s) ! i)\<lparr>closed_m := closed_m (tree_m (self (loop_body E s)) ! i)\<rparr>"
      by (simp add: loop_body_goal [OF True] nth_append)
  next
    fix i assume "length (tree_m (self s)) \<le> i \<and> i < length (tree_m (self (loop_body E s)))"
    then have "i = length (tree_m (self s))" by (simp add: loop_body_goal [OF True])
    then show "origin_m (tree_m (self (loop_body E s)) ! i) = origin s"
      by (simp add: loop_body_goal [OF True] goal_node_def TreeNode_new_def)
  qed
next
  case False
  from loop_body_expand [OF False assms] obtain ns where
    eq: "loop_body E s =
       \<lparr>self = (self s)\<lparr>tree_m := close_origin (tree_m (self s) @ ns) (origin s),
                          closed_set_m := closed_set_m (self s) @ [origin s]\<rparr>,
        origin = snd (find_best (close_origin (tree_m (self s) @ ns) (origin s)) 0 FLT_MAX (origin s)),
        has_reached_goal = (if length (tree_m (self s) @ ns) \<le> 1 then True else has_reached_goal s)\<rparr>"
    and ch: "\<forall>n\<in>set ns. \<exists>c\<in>set candidates.
            n = child_node E (local_limits E (self s) (origin s)) (self s) (origin s) c"
    by blast
  have org: "\<And>n. n \<in> set ns \<Longrightarrow> origin_m n = origin s"
    using ch by (auto simp: child_node_def Let_def TreeNode_new_def)
  show ?thesis
  proof (intro conjI allI impI)
    show "length (tree_m (self s)) \<le> length (tree_m (self (loop_body E s)))"
      by (simp add: eq)
    fix i assume "i < length (tree_m (self s))"
    then show "tree_m (self (loop_body E s)) ! i
            = (tree_m (self s) ! i)\<lparr>closed_m := closed_m (tree_m (self (loop_body E s)) ! i)\<rparr>"
      by (simp add: eq nth_close_origin nth_append)
  next
    fix i assume i: "length (tree_m (self s)) \<le> i \<and> i < length (tree_m (self (loop_body E s)))"
    then have "i - length (tree_m (self s)) < length ns" by (auto simp: eq)
    then have "ns ! (i - length (tree_m (self s))) \<in> set ns" by (rule nth_mem)
    from org [OF this] show "origin_m (tree_m (self (loop_body E s)) ! i) = origin s"
      using i assms by (simp add: eq nth_close_origin nth_append)
  qed
qed

lemma parents_below_reachable: "reachable E pl s \<Longrightarrow> parents_below (tree_m (self s))"
proof (induction rule: reachable.induct)
  case start
  show ?case by (auto simp: init_frame_eq parents_below_def)
next
  case (iterate s)
  have o: "origin s < length (tree_m (self s))" using iterate.hyps(1) by (rule origin_in_range)
  from loop_body_tree [OF o, of E] have
    old: "\<forall>i<length (tree_m (self s)).
          tree_m (self (loop_body E s)) ! i
            = (tree_m (self s) ! i)\<lparr>closed_m := closed_m (tree_m (self (loop_body E s)) ! i)\<rparr>"
    and new: "\<forall>i. length (tree_m (self s)) \<le> i \<and> i < length (tree_m (self (loop_body E s))) \<longrightarrow>
          origin_m (tree_m (self (loop_body E s)) ! i) = origin s"
    by blast+
  show ?case
    unfolding parents_below_def
  proof (intro allI impI)
    fix i assume i: "0 < i \<and> i < length (tree_m (self (loop_body E s)))"
    show "origin_m (tree_m (self (loop_body E s)) ! i) < i"
    proof (cases "i < length (tree_m (self s))")
      case True
      then have "origin_m (tree_m (self (loop_body E s)) ! i) = origin_m (tree_m (self s) ! i)"
        using old [rule_format, OF True] by (metis TreeNode.select_convs(3) TreeNode.surjective TreeNode.update_convs(4))
      then show ?thesis using iterate.IH i True by (simp add: parents_below_def)
    next
      case False
      then show ?thesis using new i o by simp
    qed
  qed
qed

lemma positions_close_origin: "map getPosition (close_origin tree org) = map getPosition tree"
proof (cases "org < length tree")
  case True
  have "map getPosition (close_origin tree org) = (map getPosition tree)[org := getPosition (tree ! org)]"
    by (simp add: close_origin_def map_update getPosition_def)
  also have "\<dots> = map getPosition tree"
    using True by (metis list_update_id nth_map)
  finally show ?thesis .
next
  case False
  then show ?thesis by (simp add: close_origin_def list_update_beyond)
qed

lemma close_origin_fields:
  assumes "i < length tree"
  shows "total_cost_m (close_origin tree org ! i) = total_cost_m (tree ! i)"
    and "heuristic_m (close_origin tree org ! i) = heuristic_m (tree ! i)"
    and "origin_m (close_origin tree org ! i) = origin_m (tree ! i)"
    and "state (close_origin tree org ! i) = state (tree ! i)"
    and "setpoint (close_origin tree org ! i) = setpoint (tree ! i)"
    and "(close_origin tree org ! i)\<lparr>total_cost_m := c, closed_m := b\<rparr>
           = (tree ! i)\<lparr>total_cost_m := c, closed_m := b\<rparr>"
  using assms by (simp_all add: nth_close_origin)

lemma near_positions: "near E ns p \<longleftrightarrow> (\<exists>q\<in>set (map getPosition ns). vec_norm E (vec_minus E q p) < lit_0_2f)"
  by (auto simp: near_def)

lemma near_close_origin: "near E (close_origin tree org) p = near E tree p"
  by (simp only: near_positions positions_close_origin)



lemma search_nodes_open: "\<not> has_reached_goal s \<Longrightarrow> search_nodes s = length (tree_m (self s))"
  by (simp add: search_nodes_def)

lemma search_nodes_goal:
  "goal_or_horizon E (self s) (origin s) \<Longrightarrow> origin s < length (tree_m (self s)) \<Longrightarrow>
   search_nodes (loop_body E s) = length (tree_m (self s))"
  by (auto simp: search_nodes_def loop_body_goal)



lemma cost_ok_config [simp]:
  "cost_ok E (pl\<lparr>tree_m := t, closed_set_m := c\<rparr>) = cost_ok E pl"
  by (simp add: cost_ok_def fun_eq_iff)

lemma cost_ok_close_origin:
  "i < length tree \<Longrightarrow> origin_m (tree ! i) < length tree \<Longrightarrow>
   cost_ok E pl (close_origin tree org) i = cost_ok E pl tree i"
  by (simp add: cost_ok_def close_origin_fields getPosition_def)

lemma cost_ok_append:
  "i < length tree \<Longrightarrow> origin_m (tree ! i) < length tree \<Longrightarrow>
   cost_ok E pl (tree @ ns) i = cost_ok E pl tree i"
  by (simp add: cost_ok_def nth_append)

lemma loop_body_config:
  assumes "origin s < length (tree_m (self s))"
  shows "self (loop_body E s) =
     (self s)\<lparr>tree_m := tree_m (self (loop_body E s)),
               closed_set_m := closed_set_m (self (loop_body E s))\<rparr>"
proof (cases "goal_or_horizon E (self s) (origin s)")
  case True
  then show ?thesis by (simp add: loop_body_goal)
next
  case False
  from loop_body_expand [OF False assms] obtain ns where
    "loop_body E s =
       \<lparr>self = (self s)\<lparr>tree_m := close_origin (tree_m (self s) @ ns) (origin s),
                          closed_set_m := closed_set_m (self s) @ [origin s]\<rparr>,
        origin = snd (find_best (close_origin (tree_m (self s) @ ns) (origin s)) 0 FLT_MAX (origin s)),
        has_reached_goal = (if length (tree_m (self s) @ ns) \<le> 1 then True else has_reached_goal s)\<rparr>"
    by blast
  then show ?thesis by simp
qed

lemma reachable_config:
  "reachable E pl s \<Longrightarrow>
   self s = pl\<lparr>tree_m := tree_m (self s), closed_set_m := closed_set_m (self s)\<rparr>"
proof (induction rule: reachable.induct)
  case start
  show ?case by (simp add: init_frame_eq)
next
  case (iterate s)
  have o: "origin s < length (tree_m (self s))" using iterate.hyps(1) by (rule origin_in_range)
  show ?case
    by (subst loop_body_config [OF o], subst iterate.IH) simp
qed

lemma cost_ok_new:
  assumes "org < length (tree_m pl)" and "length (tree_m pl) \<le> i"
    and "(tree_m pl @ ns) ! i = child_node E limits pl org c"
  shows "cost_ok E pl (tree_m pl @ ns) i"
proof -
  have p: "origin_m (child_node E limits pl org c) = org"
    by (simp add: child_node_def Let_def TreeNode_new_def)
  have "(tree_m pl @ ns) ! org = tree_m pl ! org"
    using assms(1) by (simp add: nth_append)
  then show ?thesis
    unfolding cost_ok_def assms(3) p
    by (simp add: child_node_def Let_def TreeNode_new_def getPosition_def)
qed

lemma costs_ok_reachable:
  "reachable E pl s \<Longrightarrow> costs_ok E (self s) (search_nodes s)"
proof (induction rule: reachable.induct)
  case start
  show ?case by (auto simp: init_frame_eq costs_ok_def search_nodes_def)
next
  case (iterate s)
  let ?T = "tree_m (self s)"
  have o: "origin s < length ?T" using iterate.hyps(1) by (rule origin_in_range)
  have pb: "parents_below ?T" using iterate.hyps(1) by (rule parents_below_reachable)
  have old: "\<And>i. 0 < i \<Longrightarrow> i < length ?T \<Longrightarrow> cost_ok E (self s) ?T i"
    using iterate.IH iterate.hyps(2) by (simp add: search_nodes_open costs_ok_def)
  have par: "\<And>i. 0 < i \<Longrightarrow> i < length ?T \<Longrightarrow> origin_m (?T ! i) < length ?T"
    using pb by (fastforce simp: parents_below_def)
  show ?case
  proof (cases "goal_or_horizon E (self s) (origin s)")
    case True
    show ?thesis
      unfolding costs_ok_def search_nodes_goal [OF True o]
    proof (intro allI impI)
      fix i assume i: "0 < i \<and> i < length ?T"
      then have "cost_ok E (self s) (?T @ [goal_node E (self s) (origin s)]) i"
        using old par by (simp add: cost_ok_append)
      then show "cost_ok E (self (loop_body E s)) (tree_m (self (loop_body E s))) i"
        by (simp add: loop_body_goal [OF True])
    qed
  next
    case False
    from loop_body_expand [OF False o] obtain ns where
      eq: "loop_body E s =
       \<lparr>self = (self s)\<lparr>tree_m := close_origin (?T @ ns) (origin s),
                          closed_set_m := closed_set_m (self s) @ [origin s]\<rparr>,
        origin = snd (find_best (close_origin (?T @ ns) (origin s)) 0 FLT_MAX (origin s)),
        has_reached_goal = (if length (?T @ ns) \<le> 1 then True else has_reached_goal s)\<rparr>"
      and ch: "\<forall>n\<in>set ns. \<exists>c\<in>set candidates.
            n = child_node E (local_limits E (self s) (origin s)) (self s) (origin s) c"
      by blast
    have all: "cost_ok E (self s) (?T @ ns) i \<and> origin_m ((?T @ ns) ! i) < length (?T @ ns)"
      if i: "0 < i" "i < length (?T @ ns)" for i
    proof (cases "i < length ?T")
      case True
      then show ?thesis using old [OF i(1) True] par [OF i(1) True]
        by (simp add: cost_ok_append nth_append)
    next
      case False
      then have k: "i - length ?T < length ns" using i(2) by simp
      then have "ns ! (i - length ?T) \<in> set ns" by (rule nth_mem)
      with ch obtain c where
        c: "ns ! (i - length ?T) = child_node E (local_limits E (self s) (origin s)) (self s) (origin s) c"
        by blast
      have nth: "(?T @ ns) ! i = child_node E (local_limits E (self s) (origin s)) (self s) (origin s) c"
        using False c by (simp add: nth_append)
      have "cost_ok E (self s) (?T @ ns) i"
        using o False nth by (intro cost_ok_new) simp_all
      moreover have "origin_m ((?T @ ns) ! i) = origin s"
        unfolding nth by (simp add: child_node_def Let_def TreeNode_new_def)
      ultimately show ?thesis using o by simp
    qed
    show ?thesis
      unfolding costs_ok_def
    proof (intro allI impI)
      fix i assume "0 < i \<and> i < search_nodes (loop_body E s)"
      then have i: "0 < i" "i < length (?T @ ns)" by (auto simp: search_nodes_def eq split: if_splits)
      from all [OF i] have "cost_ok E (self s) (close_origin (?T @ ns) (origin s)) i"
        using i(2) by (simp add: cost_ok_close_origin)
      then show "cost_ok E (self (loop_body E s)) (tree_m (self (loop_body E s))) i"
        by (simp add: eq)
    qed
  qed
qed

lemma root_reachable:
  "reachable E pl s \<Longrightarrow>
   tree_m (self s) ! 0 = (root_node E pl)\<lparr>closed_m := closed_m (tree_m (self s) ! 0)\<rparr>"
proof (induction rule: reachable.induct)
  case start
  show ?case by (simp add: init_frame_eq)
next
  case (iterate s)
  have o: "origin s < length (tree_m (self s))" using iterate.hyps(1) by (rule origin_in_range)
  then have "0 < length (tree_m (self s))" by linarith
  with loop_body_tree [OF o, of E] have
    "tree_m (self (loop_body E s)) ! 0
       = (tree_m (self s) ! 0)\<lparr>closed_m := closed_m (tree_m (self (loop_body E s)) ! 0)\<rparr>"
    by blast
  then show ?case by (subst (asm) iterate.IH) simp
qed

lemma beyond_first_iteration:
  "reachable E pl s \<Longrightarrow>
   s = init_frame E pl \<or> has_reached_goal s \<or> 1 < length (tree_m (self s))"
proof (induction rule: reachable.induct)
  case start
  show ?case by simp
next
  case (iterate s)
  have o: "origin s < length (tree_m (self s))" using iterate.hyps(1) by (rule origin_in_range)
  show ?case
  proof (cases "goal_or_horizon E (self s) (origin s)")
    case True
    then show ?thesis by (simp add: loop_body_goal)
  next
    case False
    from loop_body_expand [OF False o] obtain ns where
      "loop_body E s =
       \<lparr>self = (self s)\<lparr>tree_m := close_origin (tree_m (self s) @ ns) (origin s),
                          closed_set_m := closed_set_m (self s) @ [origin s]\<rparr>,
        origin = snd (find_best (close_origin (tree_m (self s) @ ns) (origin s)) 0 FLT_MAX (origin s)),
        has_reached_goal = (if length (tree_m (self s) @ ns) \<le> 1 then True else has_reached_goal s)\<rparr>"
      by blast
    then show ?thesis by (cases "length (tree_m (self s) @ ns) \<le> 1") simp_all
  qed
qed

lemma expansion_loop_result:
  assumes "expansion_loop E s = Some r" and "reachable E pl s"
  shows "reachable E pl r \<and> has_reached_goal r"
proof -
  have "reachable E pl s \<longrightarrow> reachable E pl r \<and> has_reached_goal r"
  proof (rule expansion_loop.raw_induct
      [where P = "\<lambda>E s r. reachable E pl s \<longrightarrow> reachable E pl r \<and> has_reached_goal r",
        OF _ assms(1)])
    fix loop :: "('a, 'b) externals \<Rightarrow> ('a, 'b) frame \<Rightarrow> ('a, 'b) frame option"
    fix E' s' r'
    assume IH: "\<And>s b y. loop s b = Some y \<Longrightarrow>
        reachable s pl b \<longrightarrow> reachable s pl y \<and> has_reached_goal y"
      and eq: "(if has_reached_goal s' then Some s' else loop E' (loop_body E' s')) = Some r'"
    show "reachable E' pl s' \<longrightarrow> reachable E' pl r' \<and> has_reached_goal r'"
    proof (cases "has_reached_goal s'")
      case True
      then show ?thesis using eq by simp
    next
      case False
      then have "loop E' (loop_body E' s') = Some r'" using eq by simp
      from IH [OF this] show ?thesis using False by (auto intro: reachable.iterate)
    qed
  qed
  with assms(2) show ?thesis by blast
qed

text \<open>
  \<open>search_nodes\<close> leaves out the node of the goal branch and no other node: after the
  goal branch it counts the nodes that were there before, after an expansion it counts all.
\<close>

lemma search_nodes_step:
  assumes "reachable E pl s" and "\<not> has_reached_goal s"
  shows "search_nodes (loop_body E s) =
     (if goal_or_horizon E (self s) (origin s) then length (tree_m (self s))
      else length (tree_m (self (loop_body E s))))"
proof (cases "goal_or_horizon E (self s) (origin s)")
  case True
  then show ?thesis using origin_in_range [OF assms(1)] by (simp add: search_nodes_goal)
next
  case False
  from loop_body_expand [OF False origin_in_range [OF assms(1)]] obtain ns where
    "loop_body E s =
       \<lparr>self = (self s)\<lparr>tree_m := close_origin (tree_m (self s) @ ns) (origin s),
                          closed_set_m := closed_set_m (self s) @ [origin s]\<rparr>,
        origin = snd (find_best (close_origin (tree_m (self s) @ ns) (origin s)) 0 FLT_MAX (origin s)),
        has_reached_goal = (if length (tree_m (self s) @ ns) \<le> 1 then True else has_reached_goal s)\<rparr>"
    by blast
  then show ?thesis using False assms(2) by (auto simp: search_nodes_def)
qed

lemma expanded_transfer:
  assumes "state (T ! i) = state (tree_m pl ! i)"
    and "\<And>c. c \<in> set candidates \<Longrightarrow>
           near E T (position (candidate_back E (local_limits E pl i) pl i c))"
  shows "expanded E (pl\<lparr>tree_m := T, closed_set_m := cs\<rparr>) i"
proof -
  have "local_limits E (pl\<lparr>tree_m := T, closed_set_m := cs\<rparr>) i = local_limits E pl i"
    by (simp add: local_limits_def assms(1))
  moreover have "candidate_back E L (pl\<lparr>tree_m := T, closed_set_m := cs\<rparr>) i c
      = candidate_back E L pl i c" for L c
    by (simp add: candidate_back_def assms(1))
  ultimately show ?thesis
    using assms(2) by (simp add: expanded_def)
qed

lemma expanded_grow:
  assumes "expanded E pl i"
    and "state (T ! i) = state (tree_m pl ! i)"
    and "\<And>p. near E (tree_m pl) p \<Longrightarrow> near E T p"
  shows "expanded E (pl\<lparr>tree_m := T, closed_set_m := cs\<rparr>) i"
  using assms by (intro expanded_transfer) (simp_all add: expanded_def)

lemma closed_expanded:
  assumes sc: "self_close E"
  shows "reachable E pl s \<Longrightarrow>
   \<forall>i<length (tree_m (self s)). closed_m (tree_m (self s) ! i) \<longrightarrow> expanded E (self s) i"
proof (induction rule: reachable.induct)
  case start
  show ?case by (simp add: init_frame_eq root_node_def)
next
  case (iterate s)
  let ?T = "tree_m (self s)"
  have o: "origin s < length ?T" using iterate.hyps(1) by (rule origin_in_range)
  show ?case
  proof (cases "goal_or_horizon E (self s) (origin s)")
    case True
    let ?T' = "?T @ [goal_node E (self s) (origin s)]"
    show ?thesis
    proof (intro allI impI)
      fix i assume i: "i < length (tree_m (self (loop_body E s)))"
        and c: "closed_m (tree_m (self (loop_body E s)) ! i)"
      have "i < length ?T"
      proof (rule ccontr)
        assume "\<not> i < length ?T"
        then have "i = length ?T" using i by (simp add: loop_body_goal [OF True])
        then show False using c
          by (simp add: loop_body_goal [OF True] goal_node_def TreeNode_new_def)
      qed
      moreover from this have "closed_m (?T ! i)"
        using c by (simp add: loop_body_goal [OF True] nth_append)
      ultimately have "expanded E (self s) i" using iterate.IH by blast
      then have "expanded E ((self s)\<lparr>tree_m := ?T',
          closed_set_m := closed_set_m (self s) @ [origin s, length ?T]\<rparr>) i"
        using \<open>i < length ?T\<close> by (intro expanded_grow) (simp_all add: nth_append near_append)
      then show "expanded E (self (loop_body E s)) i"
        by (simp add: loop_body_goal [OF True])
    qed
  next
    case False
    from loop_body_expand [OF False o] obtain ns where
      eq: "loop_body E s =
       \<lparr>self = (self s)\<lparr>tree_m := close_origin (?T @ ns) (origin s),
                          closed_set_m := closed_set_m (self s) @ [origin s]\<rparr>,
        origin = snd (find_best (close_origin (?T @ ns) (origin s)) 0 FLT_MAX (origin s)),
        has_reached_goal = (if length (?T @ ns) \<le> 1 then True else has_reached_goal s)\<rparr>"
      and ch: "\<forall>n\<in>set ns. \<exists>c\<in>set candidates.
            n = child_node E (local_limits E (self s) (origin s)) (self s) (origin s) c"
      and cov: "self_close E \<longrightarrow>
          (\<forall>c\<in>set candidates. near E (?T @ ns)
            (position (candidate_back E (local_limits E (self s) (origin s)) (self s) (origin s) c)))"
      by blast
    let ?T' = "close_origin (?T @ ns) (origin s)"
    have grow: "near E ?T p \<Longrightarrow> near E ?T' p" for p
      by (simp add: near_close_origin near_append)
    show ?thesis
    proof (intro allI impI)
      fix i assume i: "i < length (tree_m (self (loop_body E s)))"
        and c: "closed_m (tree_m (self (loop_body E s)) ! i)"
      have i': "i < length (?T @ ns)" using i by (simp add: eq)
      have iT: "i < length ?T"
      proof (rule ccontr)
        assume n: "\<not> i < length ?T"
        then have "i - length ?T < length ns" using i' by simp
        then have "ns ! (i - length ?T) \<in> set ns" by (rule nth_mem)
        with ch have "\<not> closed_m (ns ! (i - length ?T))"
          by (auto simp: child_node_def Let_def TreeNode_new_def)
        moreover have "i \<noteq> origin s" using n o by auto
        ultimately show False using c n i'
          by (simp add: eq nth_close_origin nth_append)
      qed
      have st: "state (?T' ! i) = state (?T ! i)"
        using i' iT by (simp add: close_origin_fields nth_append)
      have "expanded E ((self s)\<lparr>tree_m := ?T',
          closed_set_m := closed_set_m (self s) @ [origin s]\<rparr>) i"
      proof (rule expanded_transfer [OF st])
        fix c assume cin: "c \<in> set candidates"
        show "near E ?T' (position (candidate_back E (local_limits E (self s) i) (self s) i c))"
        proof (cases "i = origin s")
          case True
          then show ?thesis using cov sc cin by (simp add: near_close_origin)
        next
          case False
          then have "closed_m (?T ! i)" using c i' iT by (simp add: eq nth_close_origin nth_append)
          then have "expanded E (self s) i" using iterate.IH iT by blast
          then show ?thesis using cin grow by (simp add: expanded_def)
        qed
      qed
      then show "expanded E (self (loop_body E s)) i"
        by (simp add: eq)
    qed
  qed
qed

lemma fold_no_children:
  "org < length (tree_m pl) \<Longrightarrow>
   \<forall>c\<in>set cs. near E (tree_m pl) (position (candidate_back E limits pl org c)) \<Longrightarrow>
   fold (add_candidate E limits org) cs pl = pl"
  by (induction cs) (simp_all add: add_candidate_eq)

lemma close_origin_closed:
  "org < length tree \<Longrightarrow> closed_m (tree ! org) \<Longrightarrow> close_origin tree org = tree"
proof -
  assume "org < length tree" "closed_m (tree ! org)"
  then have "(tree ! org)\<lparr>closed_m := True\<rparr> = tree ! org" by (cases "tree ! org") simp
  then show ?thesis by (simp add: close_origin_def)
qed

subsection \<open>A loop that does not end\<close>

lemma dead_end_step:
  assumes "dead_end E s"
  shows "loop_body E s = s\<lparr>self := (self s)\<lparr>closed_set_m := closed_set_m (self s) @ [origin s]\<rparr>\<rparr>"
proof -
  let ?T = "tree_m (self s)"
  from assms have h: "\<not> has_reached_goal s" "1 < length ?T" "origin s < length ?T"
    "closed_m (?T ! origin s)" "expanded E (self s) (origin s)"
    "\<forall>n\<in>set ?T. closed_m n \<or> FLT_MAX \<le> total_cost_m n"
    "\<not> goal_or_horizon E (self s) (origin s)"
    by (simp_all add: dead_end_def)
  have f: "fold (add_candidate E (local_limits E (self s) (origin s)) (origin s)) candidates (self s)
      = self s"
    using h(3,5) by (intro fold_no_children) (simp_all add: expanded_def)
  have c: "?T[origin s := (?T ! origin s)\<lparr>closed_m := True\<rparr>] = ?T"
    using close_origin_closed [OF h(3,4)] by (simp add: close_origin_def)
  have b: "find_best ?T 0 FLT_MAX (origin s) = (FLT_MAX, origin s)"
    using h(6) by (rule find_best_unchanged)
  show ?thesis
    using h(1,2,7) by (simp add: loop_body_def Let_def f c b)
qed

lemma dead_end_preserved:
  assumes "dead_end E s"
  shows "dead_end E (loop_body E s)"
proof -
  have "expanded E ((self s)\<lparr>closed_set_m := cs\<rparr>) (origin s) = expanded E (self s) (origin s)" for cs
    by (simp add: expanded_def local_limits_def candidate_back_def)
  moreover have "goal_or_horizon E ((self s)\<lparr>closed_set_m := cs\<rparr>) (origin s)
      = goal_or_horizon E (self s) (origin s)" for cs
    by (simp add: goal_or_horizon_def)
  ultimately show ?thesis
    using assms unfolding dead_end_step [OF assms] by (simp add: dead_end_def)
qed

lemma dead_end_diverges:
  assumes "dead_end E s"
  shows "expansion_loop E s = None"
proof (cases "expansion_loop E s")
  case None
  then show ?thesis .
next
  case (Some r)
  have "\<not> dead_end E s"
  proof (rule expansion_loop.raw_induct [where P = "\<lambda>E s r. \<not> dead_end E s", OF _ Some])
    fix loop :: "('a, 'b) externals \<Rightarrow> ('a, 'b) frame \<Rightarrow> ('a, 'b) frame option"
    fix E' s' r'
    assume IH: "\<And>s b y. loop s b = Some y \<Longrightarrow> \<not> dead_end s b"
      and eq: "(if has_reached_goal s' then Some s' else loop E' (loop_body E' s')) = Some r'"
    show "\<not> dead_end E' s'"
    proof
      assume d: "dead_end E' s'"
      then have "\<not> has_reached_goal s'" by (simp add: dead_end_def)
      then have "loop E' (loop_body E' s') = Some r'" using eq by simp
      from IH [OF this] show False using dead_end_preserved [OF d] by contradiction
    qed
  qed
  with assms show ?thesis by contradiction
qed

subsection \<open>The walk along the parent links\<close>

lemma collect_setpoints_terminates:
  "parents_below tree \<Longrightarrow> i < length tree \<Longrightarrow>
   \<exists>path. collect_setpoints tree i acc = Some path \<and> length path \<le> length acc + i"
proof (induction i arbitrary: acc rule: less_induct)
  case (less i)
  show ?case
  proof (cases "0 < i")
    case False
    then show ?thesis by (subst collect_setpoints.simps) simp
  next
    case True
    let ?p = "origin_m (tree ! i)"
    have p: "?p < i" using less.prems True by (simp add: parents_below_def)
    then have "?p < length tree" using less.prems(2) by simp
    from less.IH [OF p less.prems(1) this, of "acc @ [getSetpoint (tree ! i)]"]
    obtain path where "collect_setpoints tree ?p (acc @ [getSetpoint (tree ! i)]) = Some path"
      "length path \<le> length (acc @ [getSetpoint (tree ! i)]) + ?p"
      by blast
    then show ?thesis using True p by (subst collect_setpoints.simps) simp
  qed
qed

section \<open>The claims\<close>

lemmas run_defs = init_frame_def loop_body_def add_candidate_def update_back_def TreeNode_new_def
  setCosts_def treeHeuristicFunction_def getPosition_def goal_or_horizon_def local_limits_def
  candidates_def stub_externals_def demo_planner_def Zero3_def FLT_MAX_def append_goal_node_def
  simulation_state_at_def lit_0_2f_def Let_def

lemma stub_self_close: "self_close (stub_externals p c)"
  unfolding self_close_def
proof
  fix q :: vec3
  show "vec_norm (stub_externals p c) (vec_minus (stub_externals p c) q q) < lit_0_2f"
    by (simp add: stub_externals_def norm3_vsub_self lit_0_2f_def)
qed

lemma stuck_step:
  "loop_body (stub_externals (0, 0, 0) 1) (init_frame (stub_externals (0, 0, 0) 1) (demo_planner 10))
     = stuck_frame"
  by (simp add: run_defs stuck_frame_def)

lemma stuck_loop:
  "expansion_loop (stub_externals (0, 0, 0) 1) (init_frame (stub_externals (0, 0, 0) 1) (demo_planner 10))
     = Some stuck_frame"
proof -
  have "\<not> has_reached_goal (init_frame (stub_externals (0, 0, 0) 1) (demo_planner 10))"
    by (simp add: init_frame_eq)
  then have "expansion_loop (stub_externals (0, 0, 0) 1) (init_frame (stub_externals (0, 0, 0) 1) (demo_planner 10))
      = expansion_loop (stub_externals (0, 0, 0) 1) stuck_frame"
    by (subst expansion_loop.simps) (simp add: stuck_step)
  also have "\<dots> = Some stuck_frame"
    by (subst expansion_loop.simps) (simp add: stuck_frame_def)
  finally show ?thesis .
qed

lemma one_setpoint_out_of_range:
  "length (path_node_setpoints_m pl) = 1 \<Longrightarrow> set_starting_direction pl = Inl Index_out_of_range"
  by (simp add: set_starting_direction_def Let_def unsigned_minus_1_eq_mask mask_eq_exp_minus_1)

text \<open>
  Claim C1. The claim: when the extracted path has a single entry, the second-to-last entry is
  not read and \<^verbatim>\<open>starting_direction_\<close> is left alone. The source guards the read with
  \<^verbatim>\<open>(path_node_setpoints_.size() - 2) >= 0\<close>, an unsigned comparison that always holds. In the
  stuck scenario (every trajectory ends at the start position) the tree keeps its root only,
  the path has one entry, the index wraps around to \<open>2^64 - 1\<close> and the read is outside the
  vector.
\<close>

theorem single_node_path_reads_out_of_range:
  "buildLookAheadTree (stub_externals (0, 0, 0) 1) (demo_planner 10) = Some (Inl Index_out_of_range)"
proof -
  have "collect_setpoints (tree_m (self stuck_frame)) (origin stuck_frame) [] = Some []"
    by (subst collect_setpoints.simps) (simp add: stuck_frame_def)
  then show ?thesis
    by (simp add: buildLookAheadTree_def stuck_loop one_setpoint_out_of_range)
qed

lemma first_step:
  "loop_body (stub_externals (1, 0, 0) 1) (init_frame (stub_externals (1, 0, 0) 1) (demo_planner 10))
     = two_nodes False [0]"
  by (simp add: run_defs two_nodes_def)

lemma second_step:
  "loop_body (stub_externals (1, 0, 0) 1) (two_nodes False [0]) = two_nodes True [0, 1]"
  by (simp add: run_defs two_nodes_def)

lemma reachable_first:
  "reachable (stub_externals (1, 0, 0) 1) (demo_planner 10) (two_nodes False [0])"
proof -
  have "\<not> has_reached_goal (init_frame (stub_externals (1, 0, 0) 1) (demo_planner 10))"
    by (simp add: init_frame_eq)
  from reachable.iterate [OF reachable.start this] show ?thesis by (simp add: first_step)
qed

lemma reachable_second:
  "reachable (stub_externals (1, 0, 0) 1) (demo_planner 10) (two_nodes True [0, 1])"
proof -
  have "\<not> has_reached_goal (two_nodes False [0])" by (simp add: two_nodes_def)
  from reachable.iterate [OF reachable_first this] show ?thesis by (simp add: second_step)
qed

lemma two_nodes_facts:
  "\<not> has_reached_goal (two_nodes c cs)"
  "origin (two_nodes c cs) = Suc 0"
  "length (tree_m (self (two_nodes c cs))) = 2"
  "closed_m (tree_m (self (two_nodes c cs)) ! Suc 0) = c"
  "closed_m (tree_m (self (two_nodes c cs)) ! 0)"
  "\<not> goal_or_horizon (stub_externals p e) (self (two_nodes c cs)) (Suc 0)"
  by (simp_all add: two_nodes_def goal_or_horizon_def demo_planner_def getPosition_def
      stub_externals_def)

lemma no_open_node_diverges:
  assumes "self_close E" and "reachable E pl s" and "\<not> has_reached_goal s"
    and "1 < length (tree_m (self s))"
    and "closed_m (tree_m (self s) ! origin s)"
    and "\<forall>n\<in>set (tree_m (self s)). closed_m n \<or> FLT_MAX \<le> total_cost_m n"
    and "\<not> goal_or_horizon E (self s) (origin s)"
  shows "expansion_loop E s = None"
proof -
  have o: "origin s < length (tree_m (self s))" using assms(2) by (rule origin_in_range)
  then have "expanded E (self s) (origin s)"
    using closed_expanded [OF assms(1,2)] assms(5) by blast
  then have "dead_end E s"
    using assms o by (simp add: dead_end_def)
  then show ?thesis by (rule dead_end_diverges)
qed

text \<open>
  Claim C2. The claim: the expansion loop ends for every input, also when no open node is
  left while the tree holds more than one node. The stuck test of lines 139 to 141 only asks
  whether the tree holds at most one node. With a simulator whose trajectories all end at
  \<open>(1, 0, 0)\<close> the root gets one child and the child gets none: no open node is left, the
  scan keeps the closed child as origin, the tree holds two nodes, every further iteration
  only appends the origin to the closed set, and the function never returns.
\<close>

theorem no_open_node_never_returns:
  "buildLookAheadTree (stub_externals (1, 0, 0) 1) (demo_planner 10) = None"
proof -
  let ?E = "stub_externals (1, 0, 0) 1"
  have "\<not> has_reached_goal (init_frame ?E (demo_planner 10))"
    by (simp add: init_frame_eq)
  then have "expansion_loop ?E (init_frame ?E (demo_planner 10))
      = expansion_loop ?E (two_nodes False [0])"
    by (subst expansion_loop.simps) (simp add: first_step)
  also have "\<dots> = expansion_loop ?E (two_nodes True [0, 1])"
    by (subst expansion_loop.simps) (simp add: second_step two_nodes_facts)
  also have "\<dots> = None"
  proof (rule no_open_node_diverges [OF stub_self_close reachable_second])
    show "\<forall>n\<in>set (tree_m (self (two_nodes True [0, 1]))). closed_m n \<or> FLT_MAX \<le> total_cost_m n"
      by (simp add: two_nodes_def)
  qed (simp_all add: two_nodes_facts)
  finally show ?thesis
    by (simp add: buildLookAheadTree_def)
qed

text \<open>
  Claim C3. In every state reached by the loop the root has total cost and heuristic
  \<open>h(root)\<close>. Every other node \<open>i\<close> that is not the node of the goal branch has the heuristic
  \<open>h(i)\<close>, the distance from its position to the goal, as line 44 computes it, times the
  weight, and the total cost
  \<open>(f(parent) - h(parent)) + edge_cost + h(i)\<close>, where the parent is the node \<open>origin_m\<close> and
  the edge cost is what \<^verbatim>\<open>simpleCost\<close> returned for the node when it was appended, with its
  heuristic set, its total cost not yet set and not closed.
\<close>

theorem score_update:
  assumes "reachable E pl s"
  shows "total_cost_m (tree_m (self s) ! 0) = heuristic_m (tree_m (self s) ! 0)
     \<and> heuristic_m (tree_m (self s) ! 0)
         = vec_norm E (vec_minus E (goal_m (self s)) (getPosition (tree_m (self s) ! 0)))
             * tree_heuristic_weight_m (self s)
     \<and> (\<forall>i. 0 < i \<and> i < search_nodes s \<longrightarrow>
          heuristic_m (tree_m (self s) ! i)
            = vec_norm E (vec_minus E (goal_m (self s)) (getPosition (tree_m (self s) ! i)))
                * tree_heuristic_weight_m (self s)
          \<and> total_cost_m (tree_m (self s) ! i)
            = (total_cost_m (tree_m (self s) ! origin_m (tree_m (self s) ! i))
                 - heuristic_m (tree_m (self s) ! origin_m (tree_m (self s) ! i)))
              + simpleCost E ((tree_m (self s) ! i)\<lparr>total_cost_m := 0, closed_m := False\<rparr>)
                  (goal_m (self s)) (cost_params_m (self s)) (cloud_m (self s))
              + heuristic_m (tree_m (self s) ! i))"
proof (intro conjI allI impI)
  have cfg: "goal_m (self s) = goal_m pl" "tree_heuristic_weight_m (self s) = tree_heuristic_weight_m pl"
    by (subst reachable_config [OF assms], simp)+
  have root: "tree_m (self s) ! 0 = (root_node E pl)\<lparr>closed_m := closed_m (tree_m (self s) ! 0)\<rparr>"
    using assms by (rule root_reachable)
  show "total_cost_m (tree_m (self s) ! 0) = heuristic_m (tree_m (self s) ! 0)"
    by (subst (1 2) root) (simp add: root_node_def)
  show "heuristic_m (tree_m (self s) ! 0)
         = vec_norm E (vec_minus E (goal_m (self s)) (getPosition (tree_m (self s) ! 0)))
             * tree_heuristic_weight_m (self s)"
    unfolding cfg by (subst (1 2) root) (simp add: root_node_def getPosition_def)
  fix i assume "0 < i \<and> i < search_nodes s"
  then have ok: "cost_ok E (self s) (tree_m (self s)) i"
    using costs_ok_reachable [OF assms] by (simp add: costs_ok_def)
  from ok show "heuristic_m (tree_m (self s) ! i)
            = vec_norm E (vec_minus E (goal_m (self s)) (getPosition (tree_m (self s) ! i)))
                * tree_heuristic_weight_m (self s)"
    by (simp add: cost_ok_def)
  from ok show "total_cost_m (tree_m (self s) ! i)
            = (total_cost_m (tree_m (self s) ! origin_m (tree_m (self s) ! i))
                 - heuristic_m (tree_m (self s) ! origin_m (tree_m (self s) ! i)))
              + simpleCost E ((tree_m (self s) ! i)\<lparr>total_cost_m := 0, closed_m := False\<rparr>)
                  (goal_m (self s)) (cost_params_m (self s)) (cloud_m (self s))
              + heuristic_m (tree_m (self s) ! i)"
    by (simp add: cost_ok_def)
qed

text \<open>
  In the example with two nodes, node 1 hangs below the root: \<open>f = (2 - 2) + 1 + 1\<close>.
\<close>

theorem score_update_witness:
  "total_cost_m (tree_m (self (two_nodes False [0])) ! 0) = 2
   \<and> heuristic_m (tree_m (self (two_nodes False [0])) ! 0) = 2
   \<and> heuristic_m (tree_m (self (two_nodes False [0])) ! 1) = 1
   \<and> total_cost_m (tree_m (self (two_nodes False [0])) ! 1) = (2 - 2) + 1 + 1"
proof -
  have i: "0 < (1::nat) \<and> 1 < search_nodes (two_nodes False [0])"
    by (simp add: search_nodes_def two_nodes_def)
  from score_update [OF reachable_first] i show ?thesis
    by (simp add: two_nodes_def demo_planner_def stub_externals_def getPosition_def)
qed

text \<open>
  Claim C4. The test of lines 89 and 90 is \<open>(origin > 1 \<and> near the goal) \<or> beyond the horizon\<close>,
  with the distances as the code computes them. So beyond twice the sensor range from the
  start it holds whatever the index and the distance to the goal are; within that range it
  fails for the root and for node 1 however close to the goal they are, and for a later node
  it holds exactly when the node is within the acceptance radius of the goal. When it holds,
  the iteration appends exactly one node, with the origin as parent, the goal as position and
  \<open>goal - position of the origin\<close> as setpoint, and the loop ends there.
\<close>

theorem goal_or_horizon_branch:
  "(goal_or_horizon E (self s) (origin s) \<longleftrightarrow>
      (1 < origin s
       \<and> vec_norm E (vec_minus E (getPosition (tree_m (self s) ! origin s)) (goal_m (self s)))
           < acceptance_radius_m (self s))
      \<or> 2 * max_sensor_range_m (self s)
           \<le> vec_norm E (vec_minus E (getPosition (tree_m (self s) ! origin s)) (position_m (self s))))
   \<and> (2 * max_sensor_range_m (self s)
      \<le> vec_norm E (vec_minus E (getPosition (tree_m (self s) ! origin s)) (position_m (self s)))
      \<longrightarrow> goal_or_horizon E (self s) (origin s))
   \<and> (1 < origin s
      \<and> vec_norm E (vec_minus E (getPosition (tree_m (self s) ! origin s)) (goal_m (self s)))
          < acceptance_radius_m (self s)
      \<longrightarrow> goal_or_horizon E (self s) (origin s))
   \<and> (origin s \<le> 1
      \<and> vec_norm E (vec_minus E (getPosition (tree_m (self s) ! origin s)) (position_m (self s)))
          < 2 * max_sensor_range_m (self s)
      \<longrightarrow> \<not> goal_or_horizon E (self s) (origin s))
   \<and> (acceptance_radius_m (self s)
        \<le> vec_norm E (vec_minus E (getPosition (tree_m (self s) ! origin s)) (goal_m (self s)))
      \<and> vec_norm E (vec_minus E (getPosition (tree_m (self s) ! origin s)) (position_m (self s)))
          < 2 * max_sensor_range_m (self s)
      \<longrightarrow> \<not> goal_or_horizon E (self s) (origin s))
   \<and> (goal_or_horizon E (self s) (origin s) \<and> \<not> has_reached_goal s \<longrightarrow>
        (\<exists>n. tree_m (self (loop_body E s)) = tree_m (self s) @ [n]
           \<and> origin_m n = origin s
           \<and> getPosition n = goal_m (self s)
           \<and> getSetpoint n
                = vec_minus E (goal_m (self s)) (getPosition (tree_m (self s) ! origin s)))
        \<and> expansion_loop E s = Some (loop_body E s))"
proof (intro conjI impI)
  assume g: "goal_or_horizon E (self s) (origin s) \<and> \<not> has_reached_goal s"
  then have eq: "loop_body E s =
     s\<lparr>self := (self s)\<lparr>tree_m := tree_m (self s) @ [goal_node E (self s) (origin s)],
                         closed_set_m := closed_set_m (self s) @ [origin s, length (tree_m (self s))]\<rparr>,
       has_reached_goal := True\<rparr>"
    by (simp add: loop_body_goal)
  show "\<exists>n. tree_m (self (loop_body E s)) = tree_m (self s) @ [n]
           \<and> origin_m n = origin s
           \<and> getPosition n = goal_m (self s)
           \<and> getSetpoint n
                = vec_minus E (goal_m (self s)) (getPosition (tree_m (self s) ! origin s))"
    by (rule exI [where x = "goal_node E (self s) (origin s)"])
       (simp add: eq goal_node_def TreeNode_new_def getPosition_def getSetpoint_def
          simulation_state_at_def)
  have "expansion_loop E s = expansion_loop E (loop_body E s)"
    using g by (subst expansion_loop.simps) simp
  also have "\<dots> = Some (loop_body E s)"
    by (subst expansion_loop.simps) (simp add: eq)
  finally show "expansion_loop E s = Some (loop_body E s)" .
qed (auto simp: goal_or_horizon_def)

text \<open>
  With a sensor range of zero the root is already at the horizon: the first iteration appends
  the goal node below the root and ends the loop. In the example with two nodes the test fails
  at node 1, which is at distance 1 from the start and from the goal. With a third node at
  the goal as origin it holds.
\<close>

theorem goal_or_horizon_branch_witness:
  "goal_or_horizon (stub_externals (1, 0, 0) 1)
       (self (init_frame (stub_externals (1, 0, 0) 1) (demo_planner 0))) 0
   \<and> expansion_loop (stub_externals (1, 0, 0) 1) (init_frame (stub_externals (1, 0, 0) 1) (demo_planner 0))
       = Some (loop_body (stub_externals (1, 0, 0) 1)
                 (init_frame (stub_externals (1, 0, 0) 1) (demo_planner 0)))
   \<and> length (tree_m (self (loop_body (stub_externals (1, 0, 0) 1)
                 (init_frame (stub_externals (1, 0, 0) 1) (demo_planner 0))))) = 2
   \<and> \<not> goal_or_horizon (stub_externals (1, 0, 0) 1) (self (two_nodes False [0]))
         (origin (two_nodes False [0]))
   \<and> goal_or_horizon (stub_externals (1, 0, 0) 1) (self (at_goal_frame)) (origin (at_goal_frame))"
proof -
  let ?E = "stub_externals (1, 0, 0) 1"
  let ?s = "init_frame ?E (demo_planner 0)"
  have h: "2 * max_sensor_range_m (self ?s)
      \<le> vec_norm ?E (vec_minus ?E (getPosition (tree_m (self ?s) ! origin ?s)) (position_m (self ?s)))"
    "\<not> has_reached_goal ?s" "origin ?s = 0"
    by (simp_all add: init_frame_eq demo_planner_def root_node_def getPosition_def
        stub_externals_def)
  have k: "origin (two_nodes False [0]) \<le> 1
      \<and> vec_norm ?E (vec_minus ?E
            (getPosition (tree_m (self (two_nodes False [0])) ! origin (two_nodes False [0])))
            (position_m (self (two_nodes False [0]))))
          < 2 * max_sensor_range_m (self (two_nodes False [0]))"
    by (simp add: two_nodes_def demo_planner_def getPosition_def stub_externals_def)
  have m: "1 < origin at_goal_frame
      \<and> vec_norm ?E (vec_minus ?E (getPosition (tree_m (self at_goal_frame) ! origin at_goal_frame))
            (goal_m (self at_goal_frame)))
          < acceptance_radius_m (self at_goal_frame)"
    by (simp add: at_goal_frame_def two_nodes_def demo_planner_def getPosition_def
        stub_externals_def simulation_state_at_def TreeNode_new_def)
  from goal_or_horizon_branch [of ?E ?s] h
  have "goal_or_horizon ?E (self ?s) 0"
    and "\<exists>n. tree_m (self (loop_body ?E ?s)) = tree_m (self ?s) @ [n]"
    and "expansion_loop ?E ?s = Some (loop_body ?E ?s)"
    by auto
  moreover from goal_or_horizon_branch [of ?E "two_nodes False [0]"] k
  have "\<not> goal_or_horizon ?E (self (two_nodes False [0])) (origin (two_nodes False [0]))"
    by blast
  moreover from goal_or_horizon_branch [of ?E at_goal_frame] m
  have "goal_or_horizon ?E (self at_goal_frame) (origin at_goal_frame)"
    by blast
  ultimately show ?thesis by (auto simp: init_frame_eq)
qed






text \<open>
  Claim C6. In every state reached by the loop the parent of every node but the root has a
  smaller index than the node, so the walk along the parent links of lines 147 to 150 ends
  (at index 0, the root) from every node. An iteration keeps every node of the tree at its
  index, with its parent, state, setpoint and costs; only the closed flag may change.
\<close>

theorem arena_append_only:
  assumes "reachable E pl s"
  shows "(\<forall>i. 0 < i \<and> i < length (tree_m (self s)) \<longrightarrow> origin_m (tree_m (self s) ! i) < i)
     \<and> (\<forall>i<length (tree_m (self s)). \<exists>path. collect_setpoints (tree_m (self s)) i [] = Some path)
     \<and> length (tree_m (self s)) \<le> length (tree_m (self (loop_body E s)))
     \<and> (\<forall>i<length (tree_m (self s)).
          tree_m (self (loop_body E s)) ! i
            = (tree_m (self s) ! i)\<lparr>closed_m := closed_m (tree_m (self (loop_body E s)) ! i)\<rparr>)"
proof -
  have pb: "parents_below (tree_m (self s))" using assms by (rule parents_below_reachable)
  have o: "origin s < length (tree_m (self s))" using assms by (rule origin_in_range)
  have "\<exists>path. collect_setpoints (tree_m (self s)) i [] = Some path"
    if "i < length (tree_m (self s))" for i
    using collect_setpoints_terminates [OF pb that, of "[]"] by blast
  then show ?thesis
    using pb loop_body_tree [OF o, of E] by (simp add: parents_below_def)
qed

theorem arena_append_only_witness:
  "origin_m (tree_m (self (two_nodes False [0])) ! 1) < 1
   \<and> (\<exists>path. collect_setpoints (tree_m (self (two_nodes False [0]))) 1 [] = Some path)
   \<and> tree_m (self (two_nodes True [0, 1])) ! 1
       = (tree_m (self (two_nodes False [0])) ! 1)\<lparr>closed_m := True\<rparr>"
proof -
  have i: "(1::nat) < length (tree_m (self (two_nodes False [0])))"
    by (simp add: two_nodes_def)
  from arena_append_only [OF reachable_first] i
  have a: "origin_m (tree_m (self (two_nodes False [0])) ! 1) < 1"
    and b: "\<exists>path. collect_setpoints (tree_m (self (two_nodes False [0]))) 1 [] = Some path"
    and c: "tree_m (self (loop_body (stub_externals (1, 0, 0) 1) (two_nodes False [0]))) ! 1
       = (tree_m (self (two_nodes False [0])) ! 1)
           \<lparr>closed_m := closed_m (tree_m (self (loop_body (stub_externals (1, 0, 0) 1) (two_nodes False [0]))) ! 1)\<rparr>"
    by auto
  have "tree_m (self (two_nodes True [0, 1])) ! 1
       = (tree_m (self (two_nodes False [0])) ! 1)\<lparr>closed_m := True\<rparr>"
    by (subst c [unfolded second_step]) (simp add: two_nodes_facts)
  with a b show ?thesis by blast
qed

text \<open>
  Claim C7, as stated, fails. Let every trajectory end at the goal and every edge cost
  \<^verbatim>\<open>FLT_MAX\<close>: the child of the root has the total cost \<open>(2 - 2) + FLT_MAX + 0\<close>. After the
  first expansion it is open, and the only open node, but its total cost is not below
  \<^verbatim>\<open>FLT_MAX\<close>: the scan passes it by, and the next origin is the closed root.
\<close>

theorem costly_open_node_example:
  "length (tree_m (self (loop_body (stub_externals (2, 0, 0) FLT_MAX)
        (init_frame (stub_externals (2, 0, 0) FLT_MAX) (demo_planner 10))))) = 2
   \<and> \<not> closed_m (tree_m (self (loop_body (stub_externals (2, 0, 0) FLT_MAX)
        (init_frame (stub_externals (2, 0, 0) FLT_MAX) (demo_planner 10)))) ! 1)
   \<and> origin (loop_body (stub_externals (2, 0, 0) FLT_MAX)
        (init_frame (stub_externals (2, 0, 0) FLT_MAX) (demo_planner 10))) = 0
   \<and> total_cost_m (tree_m (self (loop_body (stub_externals (2, 0, 0) FLT_MAX)
        (init_frame (stub_externals (2, 0, 0) FLT_MAX) (demo_planner 10)))) ! 1) = FLT_MAX
   \<and> closed_m (tree_m (self (loop_body (stub_externals (2, 0, 0) FLT_MAX)
        (init_frame (stub_externals (2, 0, 0) FLT_MAX) (demo_planner 10)))) ! 0)"
  by (simp add: run_defs)

text \<open>
  Claim C7, amended. After an expansion that leaves some open node with a total cost below
  \<^verbatim>\<open>FLT_MAX\<close>, the next origin comes from one scan over the whole tree: it is an open node,
  its total cost is the least among the open nodes, and every open node before it costs
  strictly more, so that among equal costs the lowest index wins. The scan never selects a
  closed node.
\<close>

theorem next_origin_selection:
  assumes "reachable E pl s" and "\<not> goal_or_horizon E (self s) (origin s)"
    and "\<exists>n\<in>set (tree_m (self (loop_body E s))). \<not> closed_m n \<and> total_cost_m n < FLT_MAX"
  shows "origin (loop_body E s) < length (tree_m (self (loop_body E s)))
     \<and> \<not> closed_m (tree_m (self (loop_body E s)) ! origin (loop_body E s))
     \<and> (\<forall>i<length (tree_m (self (loop_body E s))).
           \<not> closed_m (tree_m (self (loop_body E s)) ! i) \<longrightarrow>
           total_cost_m (tree_m (self (loop_body E s)) ! origin (loop_body E s))
             \<le> total_cost_m (tree_m (self (loop_body E s)) ! i))
     \<and> (\<forall>i<origin (loop_body E s).
           \<not> closed_m (tree_m (self (loop_body E s)) ! i) \<longrightarrow>
           total_cost_m (tree_m (self (loop_body E s)) ! origin (loop_body E s))
             < total_cost_m (tree_m (self (loop_body E s)) ! i))"
proof -
  have o: "origin s < length (tree_m (self s))" using assms(1) by (rule origin_in_range)
  from loop_body_expand [OF assms(2) o] obtain ns where
    eq: "loop_body E s =
       \<lparr>self = (self s)\<lparr>tree_m := close_origin (tree_m (self s) @ ns) (origin s),
                          closed_set_m := closed_set_m (self s) @ [origin s]\<rparr>,
        origin = snd (find_best (close_origin (tree_m (self s) @ ns) (origin s)) 0 FLT_MAX (origin s)),
        has_reached_goal = (if length (tree_m (self s) @ ns) \<le> 1 then True else has_reached_goal s)\<rparr>"
    by blast
  define T where "T = close_origin (tree_m (self s) @ ns) (origin s)"
  define org' where "org' = snd (find_best T 0 FLT_MAX (origin s))"
  have T: "tree_m (self (loop_body E s)) = T"
    and O: "origin (loop_body E s) = org'"
    by (simp_all add: eq T_def org'_def)
  from assms(3) have "\<exists>n\<in>set T. \<not> closed_m n \<and> total_cost_m n < FLT_MAX"
    unfolding T .
  from find_best_found [OF this, of 0 "origin s"] obtain k where
    k: "k < length T" "find_best T 0 FLT_MAX (origin s) = (total_cost_m (T ! k), 0 + k)"
      "\<not> closed_m (T ! k)"
      "\<forall>n\<in>set T. \<not> closed_m n \<longrightarrow> total_cost_m (T ! k) \<le> total_cost_m n"
      "\<forall>j<k. \<not> closed_m (T ! j) \<longrightarrow> total_cost_m (T ! k) < total_cost_m (T ! j)"
    by blast
  have s: "org' = k" using k(2) by (simp add: org'_def)
  show ?thesis
    unfolding T O
  proof (intro conjI)
    show "org' < length T" using k(1) s by simp
    show "\<not> closed_m (T ! org')" using k(3) s by simp
    show "\<forall>i<length T. \<not> closed_m (T ! i) \<longrightarrow> total_cost_m (T ! org') \<le> total_cost_m (T ! i)"
      using k(4) s by simp
    show "\<forall>i<org'. \<not> closed_m (T ! i) \<longrightarrow> total_cost_m (T ! org') < total_cost_m (T ! i)"
      using k(5) s by simp
  qed
qed

text \<open>
  In the example with two nodes the first expansion leaves the child open with total cost 2,
  and the child becomes the origin.
\<close>

theorem next_origin_selection_witness:
  "origin (two_nodes False [0]) = 1
   \<and> \<not> closed_m (tree_m (self (two_nodes False [0])) ! origin (two_nodes False [0]))"
proof -
  let ?E = "stub_externals (1, 0, 0) 1"
  let ?s0 = "init_frame ?E (demo_planner 10)"
  have g0: "\<not> goal_or_horizon ?E (self ?s0) (origin ?s0)"
    by (simp add: init_frame_eq goal_or_horizon_def stub_externals_def demo_planner_def root_node_def getPosition_def)
  have e0: "\<exists>n\<in>set (tree_m (self (loop_body ?E ?s0))). \<not> closed_m n \<and> total_cost_m n < FLT_MAX"
    unfolding first_step by (simp add: two_nodes_def FLT_MAX_def)
  from next_origin_selection [OF reachable.start g0 e0]
  have "\<not> closed_m (tree_m (self (loop_body ?E ?s0)) ! origin (loop_body ?E ?s0))"
    by blast
  then have "\<not> closed_m (tree_m (self (two_nodes False [0])) ! origin (two_nodes False [0]))"
    unfolding first_step .
  then show ?thesis by (simp add: two_nodes_facts)
qed

lemma set_starting_direction_lims:
  "set_starting_direction p = Inr p' \<Longrightarrow> lims_m p' = lims_m p"
  by (auto simp: set_starting_direction_def Let_def split: if_splits)

lemma buildLookAheadTree_lims:
  assumes "buildLookAheadTree E pl = Some (Inr pl')"
  shows "lims_m pl' = lims_m pl"
proof -
  from assms obtain r path where
    r: "expansion_loop E (init_frame E pl) = Some r"
    and p: "set_starting_direction
        ((self r)\<lparr>path_node_setpoints_m := path @ [getSetpoint (tree_m (self r) ! 0)]\<rparr>) = Inr pl'"
    by (auto simp: buildLookAheadTree_def split: option.splits)
  have "reachable E pl r" using expansion_loop_result [OF r reachable.start] by blast
  then have "lims_m (self r) = lims_m pl"
    by (subst reachable_config) simp_all
  then show ?thesis using set_starting_direction_lims [OF p] by simp
qed

text \<open>
  Claim C8. In an iteration that expands its origin, the limits of the simulator are the
  stored limits with the maximal horizontal speed replaced by the least of the braking speed
  for the horizontal distance from the origin to the goal, the braking speed for the maximal
  sensor range and the stored maximal horizontal speed. The state of every node that the
  iteration appends is the end of a trajectory generated under these limits from the state
  of the origin. The stored limits are the same after the iteration, and after the whole
  function.
\<close>

theorem simulator_limits:
  assumes "reachable E pl s" and "\<not> goal_or_horizon E (self s) (origin s)"
  shows "local_limits E (self s) (origin s)
       = (lims_m pl)\<lparr>max_xy_velocity_norm :=
           min (min (computeMaxSpeedFromBrakingDistance E (max_jerk_norm (lims_m pl))
                       (max_acceleration_norm (lims_m pl))
                       (vec_head2_norm E (vec_minus E (getPosition (tree_m (self s) ! origin s)) (goal_m pl))))
                    (computeMaxSpeedFromBrakingDistance E (max_jerk_norm (lims_m pl))
                       (max_acceleration_norm (lims_m pl)) (max_sensor_range_m pl)))
               (max_xy_velocity_norm (lims_m pl))\<rparr>
     \<and> (\<forall>i. length (tree_m (self s)) \<le> i \<and> i < length (tree_m (self (loop_body E s))) \<longrightarrow>
          (\<exists>c\<in>set candidates.
             state (tree_m (self (loop_body E s)) ! i)
               = generate_trajectory_back E (local_limits E (self s) (origin s))
                   (state (tree_m (self s) ! origin s)) lit_0_05f (rotate E (q_m pl) c)
                   (tree_node_duration_m pl)))
     \<and> lims_m (self (loop_body E s)) = lims_m pl
     \<and> (\<forall>pl'. buildLookAheadTree E pl = Some (Inr pl') \<longrightarrow> lims_m pl' = lims_m pl)"
proof (intro conjI allI impI)
  have o: "origin s < length (tree_m (self s))" using assms(1) by (rule origin_in_range)
  have cfg: "lims_m (self s) = lims_m pl" "goal_m (self s) = goal_m pl"
    "max_sensor_range_m (self s) = max_sensor_range_m pl" "q_m (self s) = q_m pl"
    "tree_node_duration_m (self s) = tree_node_duration_m pl"
    by (subst reachable_config [OF assms(1)], simp)+
  show "local_limits E (self s) (origin s)
       = (lims_m pl)\<lparr>max_xy_velocity_norm :=
           min (min (computeMaxSpeedFromBrakingDistance E (max_jerk_norm (lims_m pl))
                       (max_acceleration_norm (lims_m pl))
                       (vec_head2_norm E (vec_minus E (getPosition (tree_m (self s) ! origin s)) (goal_m pl))))
                    (computeMaxSpeedFromBrakingDistance E (max_jerk_norm (lims_m pl))
                       (max_acceleration_norm (lims_m pl)) (max_sensor_range_m pl)))
               (max_xy_velocity_norm (lims_m pl))\<rparr>"
    by (simp add: local_limits_def Let_def cfg getPosition_def)
  from loop_body_expand [OF assms(2) o] obtain ns where
    eq: "loop_body E s =
       \<lparr>self = (self s)\<lparr>tree_m := close_origin (tree_m (self s) @ ns) (origin s),
                          closed_set_m := closed_set_m (self s) @ [origin s]\<rparr>,
        origin = snd (find_best (close_origin (tree_m (self s) @ ns) (origin s)) 0 FLT_MAX (origin s)),
        has_reached_goal = (if length (tree_m (self s) @ ns) \<le> 1 then True else has_reached_goal s)\<rparr>"
    and ch: "\<forall>n\<in>set ns. \<exists>c\<in>set candidates.
            n = child_node E (local_limits E (self s) (origin s)) (self s) (origin s) c"
    by blast
  show "lims_m (self (loop_body E s)) = lims_m pl" by (simp add: eq cfg)
  show "lims_m pl' = lims_m pl" if "buildLookAheadTree E pl = Some (Inr pl')" for pl'
    using that by (rule buildLookAheadTree_lims)
  fix i assume i: "length (tree_m (self s)) \<le> i \<and> i < length (tree_m (self (loop_body E s)))"
  then have k: "i - length (tree_m (self s)) < length ns" by (auto simp: eq)
  then have "ns ! (i - length (tree_m (self s))) \<in> set ns" by (rule nth_mem)
  with ch obtain c where c: "c \<in> set candidates"
    "ns ! (i - length (tree_m (self s)))
       = child_node E (local_limits E (self s) (origin s)) (self s) (origin s) c"
    by blast
  have "i \<noteq> origin s" using i o by auto
  then have "tree_m (self (loop_body E s)) ! i = ns ! (i - length (tree_m (self s)))"
    using i by (simp add: eq nth_close_origin nth_append)
  then have "state (tree_m (self (loop_body E s)) ! i)
      = generate_trajectory_back E (local_limits E (self s) (origin s))
          (state (tree_m (self s) ! origin s)) lit_0_05f (rotate E (q_m pl) c) (tree_node_duration_m pl)"
    by (simp add: c(2) child_node_def Let_def TreeNode_new_def candidate_back_def cfg)
  with c(1) show "\<exists>c\<in>set candidates.
             state (tree_m (self (loop_body E s)) ! i)
               = generate_trajectory_back E (local_limits E (self s) (origin s))
                   (state (tree_m (self s) ! origin s)) lit_0_05f (rotate E (q_m pl) c)
                   (tree_node_duration_m pl)"
    by blast
qed

text \<open>
  In the example the braking speed is the distance itself: at the root the limit is
  \<open>min (min 2 10) 3 = 2\<close>, and the child of the root is the end of such a trajectory.
\<close>

theorem simulator_limits_witness:
  "local_limits (stub_externals (1, 0, 0) 1)
       (self (init_frame (stub_externals (1, 0, 0) 1) (demo_planner 10))) 0
     = \<lparr>max_xy_velocity_norm = 2, max_acceleration_norm = 2, max_jerk_norm = 20\<rparr>
   \<and> position (state (tree_m (self (two_nodes False [0])) ! 1)) = (1, 0, 0)
   \<and> lims_m (self (two_nodes False [0])) = lims_m (demo_planner 10)"
proof -
  let ?E = "stub_externals (1, 0, 0) 1"
  let ?s0 = "init_frame ?E (demo_planner 10)"
  have g0: "\<not> goal_or_horizon ?E (self ?s0) (origin ?s0)"
    by (simp add: init_frame_eq goal_or_horizon_def stub_externals_def demo_planner_def root_node_def getPosition_def)
  note main = simulator_limits [OF reachable.start g0]
  have i: "length (tree_m (self ?s0)) \<le> 1 \<and> 1 < length (tree_m (self (loop_body ?E ?s0)))"
    by (simp add: first_step two_nodes_facts) (simp add: init_frame_eq)
  from main have "local_limits ?E (self ?s0) 0
      = \<lparr>max_xy_velocity_norm = 2, max_acceleration_norm = 2, max_jerk_norm = 20\<rparr>"
    by (simp add: init_frame_eq demo_planner_def stub_externals_def root_node_def getPosition_def)
  moreover from main i have "\<exists>c\<in>set candidates.
      state (tree_m (self (loop_body ?E ?s0)) ! 1)
        = generate_trajectory_back ?E (local_limits ?E (self ?s0) (origin ?s0))
            (state (tree_m (self ?s0) ! origin ?s0)) lit_0_05f (rotate ?E (q_m (demo_planner 10)) c)
            (tree_node_duration_m (demo_planner 10))"
    by blast
  then have "\<exists>c\<in>set candidates.
      state (tree_m (self (two_nodes False [0])) ! 1)
        = generate_trajectory_back ?E (local_limits ?E (self ?s0) (origin ?s0))
            (state (tree_m (self ?s0) ! origin ?s0)) lit_0_05f (rotate ?E (q_m (demo_planner 10)) c)
            (tree_node_duration_m (demo_planner 10))"
    unfolding first_step .
  then have "position (state (tree_m (self (two_nodes False [0])) ! 1)) = (1, 0, 0)"
    by (auto simp: stub_externals_def)
  moreover from main have "lims_m (self (two_nodes False [0])) = lims_m (demo_planner 10)"
    by (simp add: first_step)
  ultimately show ?thesis by blast
qed

text \<open>
  Claim C9, as stated, fails: with a sensor range of zero the goal and horizon branch fires at
  the root, and afterwards neither the root nor the appended node has its closed flag set.
\<close>

theorem goal_branch_flags_example:
  "goal_or_horizon (stub_externals (1, 0, 0) 1) (self (init_frame (stub_externals (1, 0, 0) 1) (demo_planner 0)))
       (origin (init_frame (stub_externals (1, 0, 0) 1) (demo_planner 0)))
   \<and> \<not> closed_m (tree_m (self (loop_body (stub_externals (1, 0, 0) 1)
            (init_frame (stub_externals (1, 0, 0) 1) (demo_planner 0)))) ! 0)
   \<and> \<not> closed_m (tree_m (self (loop_body (stub_externals (1, 0, 0) 1)
            (init_frame (stub_externals (1, 0, 0) 1) (demo_planner 0)))) ! 1)"
proof -
  let ?s = "init_frame (stub_externals (1, 0, 0) 1) (demo_planner 0)"
  have g: "goal_or_horizon (stub_externals (1, 0, 0) 1) (self ?s) (origin ?s)"
    by (simp add: init_frame_eq goal_or_horizon_def stub_externals_def demo_planner_def root_node_def getPosition_def)
  then show ?thesis
    unfolding loop_body_goal [OF g]
    by (simp add: init_frame_eq root_node_def goal_node_def TreeNode_new_def)
qed

text \<open>
  Claim C9, amended. When the goal and horizon branch fires, the index of the origin and then
  the index of the appended node, the last of the tree, are appended to the closed set, and the
  loop ends. The branch writes no closed flag: the appended node is not closed, and the flag of
  the origin keeps its value.
\<close>

theorem goal_branch_closed_set:
  assumes "goal_or_horizon E (self s) (origin s)" and "origin s < length (tree_m (self s))"
  shows "closed_set_m (self (loop_body E s))
       = closed_set_m (self s) @ [origin s, length (tree_m (self (loop_body E s))) - 1]
     \<and> length (tree_m (self (loop_body E s))) = length (tree_m (self s)) + 1
     \<and> has_reached_goal (loop_body E s)
     \<and> \<not> closed_m (last (tree_m (self (loop_body E s))))
     \<and> closed_m (tree_m (self (loop_body E s)) ! origin s) = closed_m (tree_m (self s) ! origin s)"
  using assms(2)
  by (simp add: loop_body_goal [OF assms(1)] goal_node_def TreeNode_new_def nth_append)

theorem goal_branch_closed_set_witness:
  "closed_set_m (self (loop_body (stub_externals (1, 0, 0) 1)
        (init_frame (stub_externals (1, 0, 0) 1) (demo_planner 0)))) = [0, 1]
   \<and> has_reached_goal (loop_body (stub_externals (1, 0, 0) 1)
        (init_frame (stub_externals (1, 0, 0) 1) (demo_planner 0)))"
proof -
  let ?s = "init_frame (stub_externals (1, 0, 0) 1) (demo_planner 0)"
  have g: "goal_or_horizon (stub_externals (1, 0, 0) 1) (self ?s) (origin ?s)"
    by (simp add: init_frame_eq goal_or_horizon_def stub_externals_def demo_planner_def root_node_def getPosition_def)
  have o: "origin ?s < length (tree_m (self ?s))" by (simp add: init_frame_eq)
  from goal_branch_closed_set [OF g o] show ?thesis
    by (simp add: init_frame_eq)
qed

text \<open>
  Claim C10. An iteration never shortens the tree. An iteration that expands its origin sets
  the flag by the stuck test only when it is the first iteration and the expansion of the root
  appended nothing: once the tree holds more than one node the test fails. In that case the
  tree is the closed root alone, the origin is the root, and the walk along the parent links
  collects nothing, so that the path is the setpoint of the root alone.
\<close>

theorem stuck_only_at_first_expansion:
  assumes "reachable E pl s" and "\<not> has_reached_goal s"
  shows "length (tree_m (self s)) \<le> length (tree_m (self (loop_body E s)))
     \<and> (\<not> goal_or_horizon E (self s) (origin s) \<longrightarrow>
          (1 < length (tree_m (self s)) \<longrightarrow> \<not> has_reached_goal (loop_body E s))
          \<and> (has_reached_goal (loop_body E s) \<longrightarrow>
               s = init_frame E pl
               \<and> tree_m (self (loop_body E s)) = [(root_node E pl)\<lparr>closed_m := True\<rparr>]
               \<and> origin (loop_body E s) = 0
               \<and> collect_setpoints (tree_m (self (loop_body E s))) (origin (loop_body E s)) []
                   = Some []))"
proof (intro conjI impI)
  have o: "origin s < length (tree_m (self s))" using assms(1) by (rule origin_in_range)
  show "length (tree_m (self s)) \<le> length (tree_m (self (loop_body E s)))"
    using loop_body_tree [OF o, of E] by blast
  assume g: "\<not> goal_or_horizon E (self s) (origin s)"
  from loop_body_expand [OF g o] obtain ns where
    eq: "loop_body E s =
       \<lparr>self = (self s)\<lparr>tree_m := close_origin (tree_m (self s) @ ns) (origin s),
                          closed_set_m := closed_set_m (self s) @ [origin s]\<rparr>,
        origin = snd (find_best (close_origin (tree_m (self s) @ ns) (origin s)) 0 FLT_MAX (origin s)),
        has_reached_goal = (if length (tree_m (self s) @ ns) \<le> 1 then True else has_reached_goal s)\<rparr>"
    by blast
  show "\<not> has_reached_goal (loop_body E s)" if "1 < length (tree_m (self s))"
    using that assms(2) by (simp add: eq)
  assume h: "has_reached_goal (loop_body E s)"
  then have len: "length (tree_m (self s) @ ns) \<le> 1"
    using assms(2) by (simp add: eq split: if_splits)
  then have "\<not> 1 < length (tree_m (self s))" by simp
  with beyond_first_iteration [OF assms(1)] assms(2)
  show s: "s = init_frame E pl" by blast
  from len o have ns: "ns = []" by (cases ns) auto
  show T: "tree_m (self (loop_body E s)) = [(root_node E pl)\<lparr>closed_m := True\<rparr>]"
    unfolding eq by (simp add: ns) (simp add: s init_frame_eq close_origin_def)
  have "origin (loop_body E s) < length (tree_m (self (loop_body E s)))"
    using reachable.iterate [OF assms] by (rule origin_in_range)
  then show O: "origin (loop_body E s) = 0" by (simp add: T)
  show "collect_setpoints (tree_m (self (loop_body E s))) (origin (loop_body E s)) [] = Some []"
    unfolding O by (subst collect_setpoints.simps) simp
qed

text \<open>
  In the stuck scenario the first expansion adds nothing and sets the flag; in the example with
  two nodes the second expansion adds nothing either, and does not.
\<close>

theorem stuck_only_at_first_expansion_witness:
  "has_reached_goal (loop_body (stub_externals (0, 0, 0) 1)
       (init_frame (stub_externals (0, 0, 0) 1) (demo_planner 10)))
   \<and> origin (loop_body (stub_externals (0, 0, 0) 1)
       (init_frame (stub_externals (0, 0, 0) 1) (demo_planner 10))) = 0
   \<and> collect_setpoints (tree_m (self (loop_body (stub_externals (0, 0, 0) 1)
       (init_frame (stub_externals (0, 0, 0) 1) (demo_planner 10))))) 0 [] = Some []
   \<and> \<not> has_reached_goal (loop_body (stub_externals (1, 0, 0) 1) (two_nodes False [0]))"
proof -
  let ?E = "stub_externals (0, 0, 0) 1"
  let ?s = "init_frame ?E (demo_planner 10)"
  have n: "\<not> has_reached_goal ?s" by (simp add: init_frame_eq)
  have g: "\<not> goal_or_horizon ?E (self ?s) (origin ?s)"
    by (simp add: init_frame_eq goal_or_horizon_def stub_externals_def demo_planner_def root_node_def getPosition_def)
  have h: "has_reached_goal (loop_body ?E ?s)"
    unfolding stuck_step by (simp add: stuck_frame_def)
  from stuck_only_at_first_expansion [OF reachable.start n, of ] g h
  have "origin (loop_body ?E ?s) = 0"
    and "collect_setpoints (tree_m (self (loop_body ?E ?s))) (origin (loop_body ?E ?s)) [] = Some []"
    by blast+
  then have a: "origin (loop_body ?E ?s) = 0"
    "collect_setpoints (tree_m (self (loop_body ?E ?s))) 0 [] = Some []"
    by simp_all
  have "\<not> has_reached_goal (two_nodes False [0])"
    "\<not> goal_or_horizon (stub_externals (1, 0, 0) 1) (self (two_nodes False [0]))
        (origin (two_nodes False [0]))"
    "1 < length (tree_m (self (two_nodes False [0])))"
    by (simp_all add: two_nodes_facts)
  with stuck_only_at_first_expansion [OF reachable_first]
  have "\<not> has_reached_goal (loop_body (stub_externals (1, 0, 0) 1) (two_nodes False [0]))"
    by blast
  with h a show ?thesis by blast
qed

end
